theory Spec2Isabelle
  imports Main "HOL-Library.Code_Target_Nat"
begin

section \<open>Values, errors and the world the service runs in\<close>

text \<open>
  The user service is TypeScript on Node. A JavaScript string is a sequence of UTF-16 code
  units (\<open>utf16\<close>, each unit a number below 65536). Identifiers, keys, blobs and the
  tokens carried inside JSON are written as \<open>string\<close>, one character per code unit, which
  covers the code units below 256; \<open>units\<close> gives the code units of such a string. A
  Node Buffer is \<open>bytes\<close>. Numbers are integers (the service only handles epoch
  seconds, milliseconds and TTLs).
\<close>

type_synonym bytes = string

type_synonym utf16 = "nat list"

definition units :: "string \<Rightarrow> utf16" where
  "units s = map of_char s"

text \<open>JavaScript values as they come out of \<open>JSON.parse\<close>, \<open>jwt.decode\<close> and axios.\<close>

datatype jsval =
    JUndefined
  | JNull
  | JBool bool
  | JNum int
  | JStr string
  | JArr "jsval list"
  | JObj "(string \<times> jsval) list"

fun truthy :: "jsval \<Rightarrow> bool" where
  "truthy JUndefined = False"
| "truthy JNull = False"
| "truthy (JBool b) = b"
| "truthy (JNum n) = (n \<noteq> 0)"
| "truthy (JStr s) = (s \<noteq> [])"
| "truthy (JArr _) = True"
| "truthy (JObj _) = True"

fun typeof :: "jsval \<Rightarrow> string" where
  "typeof JUndefined = ''undefined''"
| "typeof JNull = ''object''"
| "typeof (JBool _) = ''boolean''"
| "typeof (JNum _) = ''number''"
| "typeof (JStr _) = ''string''"
| "typeof (JArr _) = ''object''"
| "typeof (JObj _) = ''object''"

text \<open>\<open>v.k\<close> on a value that is neither \<open>null\<close> nor \<open>undefined\<close>: a missing property reads
  as \<open>undefined\<close>.\<close>

fun member :: "jsval \<Rightarrow> string \<Rightarrow> jsval" where
  "member (JObj kvs) k = (case map_of kvs k of Some v \<Rightarrow> v | None \<Rightarrow> JUndefined)"
| "member _ k = JUndefined"

fun num_of :: "jsval \<Rightarrow> int" where
  "num_of (JNum n) = n"
| "num_of _ = 0"

text \<open>Every \<open>throw\<close> of the modelled code, and every rejection of a client library, is a
  value of this type. The store wrappers keep the original error as their cause.\<close>

datatype error =
    TypeError
  | RangeError
  | CipherError
  | MalformedTokenStructure
  | InvalidRefreshToken
  | RedisError
  | JsonSyntaxError
  | SessionDataNotFound
  | UnableToRetrieveSession error
  | RedisSaveFailed error
  | RedisDeletionFailed error
  | FailedToDecodeAccessToken
  | MissingExp
  | DatabaseError
  | UserNotFound
  | NoValidRefreshTokenFound
  | RequestFailed
  | Auth0DidNotReturnValidTokens
  | JwtVerificationFailed
  | NoCachedManagementToken
  | FailedToRetrieveManagementToken error
  | FailedToSaveManagementToken error
  | NoRoleAssigned
  | UnexpectedStatus nat

text \<open>A string held by Redis: either raw text (the liveness marker's \<open>'1'\<close>) or the text
  \<open>JSON.stringify v\<close>, kept as the value it encodes. Raw text under a key that the service
  parses stands for text that is not JSON.\<close>

datatype rstring = Text string | Encoded jsval

fun JSON_parse :: "rstring \<Rightarrow> error + jsval" where
  "JSON_parse (Encoded v) = Inr v"
| "JSON_parse (Text s) = Inl JsonSyntaxError"

fun truthy_str :: "rstring option \<Rightarrow> bool" where
  "truthy_str None = False"
| "truthy_str (Some (Text s)) = (s \<noteq> [])"
| "truthy_str (Some (Encoded v)) = True"

text \<open>A Redis entry: its value, and the expiry last set on it (\<open>ttl\<close> seconds, set at
  \<open>stamped\<close> milliseconds; no \<open>ttl\<close> means the key never expires).\<close>

record rentry =
  rvalue :: rstring
  stamped :: int
  ttl :: "int option"

text \<open>The tables of the relational schema that the modelled code touches.\<close>

record user_row =
  uid :: string
  planId :: string

record token_row =
  rowUserId :: string
  refreshToken :: string
  rowSessionId :: string
  expiresAt :: int
  revoked :: bool

text \<open>Requests sent to the identity provider, and its replies.\<close>

datatype request =
    RefreshTokenGrant utf16
  | ClientCredentialsGrant
  | GetUserRoles jsval string
  | PostUserRoles jsval string jsval
  | LogoutRedirect

record reply =
  status :: nat
  data :: jsval

text \<open>What the environment does at one I/O call: how long the call takes and whether the
  client rejects.\<close>

record tick =
  elapsed :: nat
  fails :: bool

record world =
  redis :: "string \<Rightarrow> rentry option"
  users :: "string \<Rightarrow> user_row option"
  ledger :: "token_row list"
  clock :: int
  schedule :: "tick list"
  entropy :: "bytes list"
  calls :: "request list"

text \<open>Libraries and remote services the code calls but does not define: Node's AES-256-GCM
  (\<open>seal\<close> is \<open>createCipheriv/update/final/getAuthTag\<close>, \<open>unseal\<close> is
  \<open>createDecipheriv/setAuthTag/update/final\<close>; \<open>None\<close> is a throw), \<open>jsonwebtoken\<close>,
  the provider's HTTP endpoints, and the plan table of \<open>config/planMapping\<close>. Two more
  parameters stand for what the runtime and the Redis client do with a value that is not
  a number where the code expects one: \<open>coerces_to_date v\<close> tells whether
  \<open>new Date(v * 1000).toISOString()\<close> returns (for \<open>'abc'\<close> the product is NaN and the call
  throws), and \<open>EX_option v\<close> is what the client makes of the option \<open>{EX: v}\<close>:
  \<open>None\<close> when the call is rejected, \<open>Some None\<close> when the option is left out, else the
  expiry sent.\<close>

record plan =
  plan_id :: string
  roleId :: string

record deps =
  seal :: "bytes \<Rightarrow> bytes \<Rightarrow> bytes \<Rightarrow> (bytes \<times> bytes) option"
  unseal :: "bytes \<Rightarrow> bytes \<Rightarrow> bytes \<Rightarrow> bytes \<Rightarrow> bytes option"
  jwt_decode :: "string \<Rightarrow> jsval"
  jwt_verify :: "string \<Rightarrow> bool"
  http :: "request \<Rightarrow> reply"
  PLAN_MAPPING :: "(string \<times> plan) list"
  coerces_to_date :: "jsval \<Rightarrow> bool"
  EX_option :: "jsval \<Rightarrow> int option option"

text \<open>\<open>config/env\<close>, and the module constant \<open>REFRESH_TOKEN_WINDOW\<close>.\<close>

record env =
  TTL :: int
  INACTIVITY_TIMEOUT :: int
  AUTH0_REFRESH_TOKEN_EXPIRY :: int
  ENCRYPTION_KEY :: bytes
  MANAGEMENT_API_KEY :: string
  REFRESH_TOKEN_WINDOW :: int

section \<open>Asynchronous code: results, state and exceptions\<close>

text \<open>An \<open>async\<close> function maps the world to a result and the world it leaves behind.
  An exception (\<open>Inl\<close>) keeps the effects that happened before it.\<close>

type_synonym 'a io = "world \<Rightarrow> (error + 'a) \<times> world"

definition return :: "'a \<Rightarrow> 'a io" where
  "return x = (\<lambda>w. (Inr x, w))"

definition throw :: "error \<Rightarrow> 'a io" where
  "throw e = (\<lambda>w. (Inl e, w))"

definition bind :: "'a io \<Rightarrow> ('a \<Rightarrow> 'b io) \<Rightarrow> 'b io" where
  "bind m f = (\<lambda>w. case m w of (Inl e, w') \<Rightarrow> (Inl e, w') | (Inr x, w') \<Rightarrow> f x w')"

definition try_catch :: "'a io \<Rightarrow> (error \<Rightarrow> 'a io) \<Rightarrow> 'a io" where
  "try_catch m h = (\<lambda>w. case m w of (Inl e, w') \<Rightarrow> h e w' | (Inr x, w') \<Rightarrow> (Inr x, w'))"

definition lift :: "error + 'a \<Rightarrow> 'a io" where
  "lift r = (\<lambda>w. (r, w))"

definition now :: "int io" where
  "now = (\<lambda>w. (Inr (clock w), w))"

text \<open>One I/O call: the environment's next tick is consumed and the clock advances.\<close>

definition io_tick :: "world \<Rightarrow> bool \<times> world" where
  "io_tick w =
     (case schedule w of
        [] \<Rightarrow> (False, w)
      | t # ts \<Rightarrow> (fails t, w\<lparr>clock := clock w + int (elapsed t), schedule := ts\<rparr>))"

text \<open>\<open>crypto.randomBytes n\<close>: the environment's next random block, cut or padded to
  \<open>n\<close> bytes.\<close>

definition randomBytes :: "nat \<Rightarrow> bytes io" where
  "randomBytes n =
     (\<lambda>w. case entropy w of
        [] \<Rightarrow> (Inr (replicate n (CHR 0x00)), w)
      | r # rs \<Rightarrow> (Inr (take n (r @ replicate n (CHR 0x00))), w\<lparr>entropy := rs\<rparr>))"

section \<open>Hex text and splitting\<close>

definition hex_digit :: "nat \<Rightarrow> char" where
  "hex_digit n = ''0123456789abcdef'' ! n"

definition hex_val :: "char \<Rightarrow> nat option" where
  "hex_val c =
     (let n = (of_char c :: nat) in
      if 48 \<le> n \<and> n \<le> 57 then Some (n - 48)
      else if 97 \<le> n \<and> n \<le> 102 then Some (n - 87)
      else if 65 \<le> n \<and> n \<le> 70 then Some (n - 55)
      else None)"

definition toHex_byte :: "char \<Rightarrow> string" where
  "toHex_byte c = [hex_digit (of_char c div 16), hex_digit (of_char c mod 16)]"

text \<open>\<open>buf.toString('hex')\<close>.\<close>

definition toHex :: "bytes \<Rightarrow> string" where
  "toHex bs = concat (map toHex_byte bs)"

text \<open>\<open>Buffer.from(s, 'hex')\<close>: pairs of hex digits in either case; decoding stops at the
  first pair that is not hex, and a trailing single digit is dropped.\<close>

fun fromHex :: "string \<Rightarrow> bytes" where
  "fromHex (a # b # rest) =
     (case (hex_val a, hex_val b) of
        (Some x, Some y) \<Rightarrow> char_of (16 * x + y) # fromHex rest
      | _ \<Rightarrow> [])"
| "fromHex _ = []"

text \<open>\<open>s.split(d)\<close> for a one-character separator.\<close>

fun splitOn :: "char \<Rightarrow> string \<Rightarrow> string list" where
  "splitOn d [] = [[]]"
| "splitOn d (c # cs) =
     (if c = d then [] # splitOn d cs
      else (case splitOn d cs of [] \<Rightarrow> [[c]] | x # xs \<Rightarrow> (c # x) # xs))"

text \<open>Array destructuring: a missing element is \<open>undefined\<close>.\<close>

definition element :: "string list \<Rightarrow> nat \<Rightarrow> string option" where
  "element xs i = (if i < length xs then Some (xs ! i) else None)"

fun falsy :: "'a list option \<Rightarrow> bool" where
  "falsy None = True"
| "falsy (Some s) = (s = [])"

section \<open>UTF-16 strings and their UTF-8 bytes\<close>

text \<open>High and low surrogates.\<close>

definition is_high :: "nat \<Rightarrow> bool" where
  "is_high u \<longleftrightarrow> 0xD800 \<le> u \<and> u \<le> 0xDBFF"

definition is_low :: "nat \<Rightarrow> bool" where
  "is_low u \<longleftrightarrow> 0xDC00 \<le> u \<and> u \<le> 0xDFFF"

text \<open>The code points that the \<open>'utf8'\<close> encoder reads from a string: a high surrogate
  followed by a low one is one code point above \<open>0xFFFF\<close>, and a surrogate without its
  partner is replaced by \<open>U+FFFD\<close>.\<close>

fun code_points :: "utf16 \<Rightarrow> nat list" where
  "code_points (u # v # rest) =
     (if is_high u \<and> is_low v
      then (0x10000 + (u - 0xD800) * 0x400 + (v - 0xDC00)) # code_points rest
      else (if is_high u \<or> is_low u then 0xFFFD else u) # code_points (v # rest))"
| "code_points [u] = [if is_high u \<or> is_low u then 0xFFFD else u]"
| "code_points [] = []"

text \<open>The UTF-8 bytes of one code point.\<close>

definition utf8_of :: "nat \<Rightarrow> nat list" where
  "utf8_of cp =
     (if cp < 0x80 then [cp]
      else if cp < 0x800 then [0xC0 + cp div 0x40, 0x80 + cp mod 0x40]
      else if cp < 0x10000 then
        [0xE0 + cp div 0x1000, 0x80 + cp div 0x40 mod 0x40, 0x80 + cp mod 0x40]
      else [0xF0 + cp div 0x40000, 0x80 + cp div 0x1000 mod 0x40, 0x80 + cp div 0x40 mod 0x40,
            0x80 + cp mod 0x40])"

text \<open>\<open>Buffer.from(s, 'utf8')\<close>, as \<open>cipher.update(s, 'utf8', ...)\<close> reads its input.\<close>

definition utf8_encode :: "utf16 \<Rightarrow> bytes" where
  "utf8_encode s = map char_of (concat (map utf8_of (code_points s)))"

text \<open>Decoding: a well-formed sequence gives its code point; at a byte that cannot
  continue the sequence the decoder emits \<open>U+FFFD\<close> for what it has read and starts again
  at that byte; an unfinished sequence at the end gives one \<open>U+FFFD\<close>. Overlong forms,
  encoded surrogates and code points above \<open>0x10FFFF\<close> are not well-formed.\<close>

definition trail :: "nat \<Rightarrow> bool" where
  "trail b \<longleftrightarrow> 0x80 \<le> b \<and> b \<le> 0xBF"

fun utf8_scan :: "nat list \<Rightarrow> nat list" where
  "utf8_scan [] = []"
| "utf8_scan (b0 # bs) =
     (if b0 < 0x80 then b0 # utf8_scan bs
      else if 0xC2 \<le> b0 \<and> b0 \<le> 0xDF then
        (case bs of
           [] \<Rightarrow> [0xFFFD]
         | b1 # bs1 \<Rightarrow>
             if trail b1 then ((b0 - 0xC0) * 0x40 + (b1 - 0x80)) # utf8_scan bs1
             else 0xFFFD # utf8_scan bs)
      else if 0xE0 \<le> b0 \<and> b0 \<le> 0xEF then
        (case bs of
           [] \<Rightarrow> [0xFFFD]
         | b1 # bs1 \<Rightarrow>
             if (if b0 = 0xE0 then 0xA0 else 0x80) \<le> b1 \<and> b1 \<le> (if b0 = 0xED then 0x9F else 0xBF)
             then (case bs1 of
                     [] \<Rightarrow> [0xFFFD]
                   | b2 # bs2 \<Rightarrow>
                       if trail b2
                       then ((b0 - 0xE0) * 0x1000 + (b1 - 0x80) * 0x40 + (b2 - 0x80)) # utf8_scan bs2
                       else 0xFFFD # utf8_scan bs1)
             else 0xFFFD # utf8_scan bs)
      else if 0xF0 \<le> b0 \<and> b0 \<le> 0xF4 then
        (case bs of
           [] \<Rightarrow> [0xFFFD]
         | b1 # bs1 \<Rightarrow>
             if (if b0 = 0xF0 then 0x90 else 0x80) \<le> b1 \<and> b1 \<le> (if b0 = 0xF4 then 0x8F else 0xBF)
             then (case bs1 of
                     [] \<Rightarrow> [0xFFFD]
                   | b2 # bs2 \<Rightarrow>
                       if trail b2
                       then (case bs2 of
                               [] \<Rightarrow> [0xFFFD]
                             | b3 # bs3 \<Rightarrow>
                                 if trail b3
                                 then ((b0 - 0xF0) * 0x40000 + (b1 - 0x80) * 0x1000
                                       + (b2 - 0x80) * 0x40 + (b3 - 0x80)) # utf8_scan bs3
                                 else 0xFFFD # utf8_scan bs2)
                       else 0xFFFD # utf8_scan bs1)
             else 0xFFFD # utf8_scan bs)
      else 0xFFFD # utf8_scan bs)"

text \<open>The code units of one code point.\<close>

definition utf16_of :: "nat \<Rightarrow> nat list" where
  "utf16_of cp =
     (if cp < 0x10000 then [cp]
      else [0xD800 + (cp - 0x10000) div 0x400, 0xDC00 + (cp - 0x10000) mod 0x400])"

text \<open>\<open>buf.toString('utf8')\<close>, as \<open>decipher.update(..., 'utf8')\<close> and \<open>final('utf8')\<close>
  together write their output.\<close>

definition utf8_decode :: "bytes \<Rightarrow> utf16" where
  "utf8_decode bs = concat (map utf16_of (utf8_scan (map of_char bs)))"

text \<open>A string without an unpaired surrogate.\<close>

fun well_formed :: "utf16 \<Rightarrow> bool" where
  "well_formed (u # v # rest) =
     (if is_high u then is_low v \<and> well_formed rest
      else u < 0x10000 \<and> \<not> is_low u \<and> well_formed (v # rest))"
| "well_formed [u] = (u < 0x10000 \<and> \<not> is_high u \<and> \<not> is_low u)"
| "well_formed [] = True"

section \<open>utils/aes.ts\<close>

definition encryptToken :: "deps \<Rightarrow> utf16 \<Rightarrow> bytes \<Rightarrow> nat \<Rightarrow> string io" where
  "encryptToken X token encryption_key iv_length =
     bind (randomBytes iv_length) (\<lambda>iv.
       case seal X encryption_key iv (utf8_encode token) of
         None \<Rightarrow> throw CipherError
       | Some (encrypted, authTag) \<Rightarrow>
           return (toHex iv @ '':'' @ toHex authTag @ '':'' @ toHex encrypted))"

text \<open>The body of the \<open>try\<close> block of \<open>decryptToken\<close>. The nonce and the tag are decoded
  by \<open>Buffer.from\<close>; the ciphertext segment is handed as hex text to \<open>decipher.update\<close>,
  which throws when its length is odd.\<close>

definition decryptToken_try :: "deps \<Rightarrow> string \<Rightarrow> bytes \<Rightarrow> error + utf16" where
  "decryptToken_try X encryptedToken encryption_key =
     (let parts = splitOn (CHR '':'') encryptedToken;
          iv = element parts 0;
          authTag = element parts 1;
          encrypted = element parts 2
      in if falsy iv \<or> falsy authTag \<or> falsy encrypted then Inl MalformedTokenStructure
         else if odd (length (the encrypted)) then Inl TypeError
         else (case unseal X encryption_key (fromHex (the iv)) (fromHex (the authTag))
                       (fromHex (the encrypted)) of
                 None \<Rightarrow> Inl CipherError
               | Some decrypted \<Rightarrow> Inr (utf8_decode decrypted)))"

definition decryptToken :: "deps \<Rightarrow> string \<Rightarrow> bytes \<Rightarrow> error + utf16" where
  "decryptToken X encryptedToken encryption_key =
     (case decryptToken_try X encryptedToken encryption_key of
        Inl err \<Rightarrow> Inl InvalidRefreshToken
      | Inr decryptedToken \<Rightarrow> Inr decryptedToken)"

text \<open>What is assumed of AES-256-GCM: what \<open>seal\<close> produces, \<open>unseal\<close> opens under the
  same key and nonce; the ciphertext is as long as the plaintext; the tag is not empty.\<close>

definition aead_ok :: "deps \<Rightarrow> bool" where
  "aead_ok X \<longleftrightarrow>
     (\<forall>k iv pt ct tag. seal X k iv pt = Some (ct, tag) \<longrightarrow>
        unseal X k iv tag ct = Some pt \<and> length ct = length pt \<and> tag \<noteq> [])
   \<and> (\<forall>k iv tag ct pt. unseal X k iv tag ct = Some pt \<longrightarrow> length pt = length ct)"

section \<open>The Redis client\<close>

text \<open>The entry under a key at time \<open>t\<close>, unless its expiry has passed.\<close>

definition live :: "(string \<Rightarrow> rentry option) \<Rightarrow> int \<Rightarrow> string \<Rightarrow> rentry option" where
  "live store t k =
     (case store k of
        None \<Rightarrow> None
      | Some e \<Rightarrow>
          (case ttl e of
             None \<Rightarrow> Some e
           | Some s \<Rightarrow> if stamped e + s * 1000 \<le> t then None else Some e))"

definition redis_get :: "string \<Rightarrow> rstring option io" where
  "redis_get k =
     (\<lambda>w. let (f, w1) = io_tick w in
        if f then (Inl RedisError, w1)
        else (Inr (map_option rvalue (live (redis w1) (clock w1) k)), w1))"

text \<open>\<open>SET k v EX ex\<close>; the server refuses an expiry that is not positive.\<close>

definition redis_set :: "string \<Rightarrow> rstring \<Rightarrow> int \<Rightarrow> unit io" where
  "redis_set k v ex =
     (\<lambda>w. let (f, w1) = io_tick w in
        if f \<or> ex \<le> 0 then (Inl RedisError, w1)
        else (Inr (),
              w1\<lparr>redis := (redis w1)(k \<mapsto> \<lparr>rvalue = v, stamped = clock w1, ttl = Some ex\<rparr>)\<rparr>))"

text \<open>\<open>SET k v\<close> without an expiry.\<close>

definition redis_set_plain :: "string \<Rightarrow> rstring \<Rightarrow> unit io" where
  "redis_set_plain k v =
     (\<lambda>w. let (f, w1) = io_tick w in
        if f then (Inl RedisError, w1)
        else (Inr (),
              w1\<lparr>redis := (redis w1)(k \<mapsto> \<lparr>rvalue = v, stamped = clock w1, ttl = None\<rparr>)\<rparr>))"

text \<open>\<open>PTTL k\<close>: \<open>-2\<close> without the key, \<open>-1\<close> without an expiry, else the milliseconds
  left.\<close>

definition redis_pTTL :: "string \<Rightarrow> int io" where
  "redis_pTTL k =
     (\<lambda>w. let (f, w1) = io_tick w in
        if f then (Inl RedisError, w1)
        else (case live (redis w1) (clock w1) k of
                None \<Rightarrow> (Inr (- 2), w1)
              | Some e \<Rightarrow>
                  (case ttl e of
                     None \<Rightarrow> (Inr (- 1), w1)
                   | Some s \<Rightarrow> (Inr (stamped e + s * 1000 - clock w1), w1))))"

text \<open>\<open>EXPIRE k secs\<close>: a timeout that is not positive deletes the key.\<close>

definition redis_expire :: "string \<Rightarrow> int \<Rightarrow> bool io" where
  "redis_expire k secs =
     (\<lambda>w. let (f, w1) = io_tick w in
        if f then (Inl RedisError, w1)
        else (case live (redis w1) (clock w1) k of
                None \<Rightarrow> (Inr False, w1)
              | Some e \<Rightarrow>
                  if secs \<le> 0 then (Inr True, w1\<lparr>redis := (redis w1)(k := None)\<rparr>)
                  else (Inr True,
                        w1\<lparr>redis := (redis w1)(k \<mapsto> e\<lparr>stamped := clock w1, ttl := Some secs\<rparr>)\<rparr>)))"

definition redis_unlink :: "string \<Rightarrow> nat io" where
  "redis_unlink k =
     (\<lambda>w. let (f, w1) = io_tick w in
        if f then (Inl RedisError, w1)
        else (case live (redis w1) (clock w1) k of
                None \<Rightarrow> (Inr 0, w1\<lparr>redis := (redis w1)(k := None)\<rparr>)
              | Some e \<Rightarrow> (Inr 1, w1\<lparr>redis := (redis w1)(k := None)\<rparr>)))"

section \<open>services/tokenService.ts\<close>

definition verifyAccessToken :: "deps \<Rightarrow> jsval \<Rightarrow> bool io" where
  "verifyAccessToken X token =
     (case token of
        JStr t \<Rightarrow> if jwt_verify X t then return True else throw JwtVerificationFailed
      | _ \<Rightarrow> throw JwtVerificationFailed)"

text \<open>\<open>new Date(exp * 1000).toISOString()\<close> returns when \<open>exp * 1000\<close> is a time value, at
  most 8.64e15 milliseconds from the epoch, and throws a \<open>RangeError\<close> otherwise. An
  \<open>exp\<close> that is not a number is first coerced by the runtime.\<close>

definition toISOString_returns :: "deps \<Rightarrow> jsval \<Rightarrow> bool" where
  "toISOString_returns X exp =
     (case exp of
        JNum n \<Rightarrow> \<bar>n * 1000\<bar> \<le> 8640000000000000
      | _ \<Rightarrow> coerces_to_date X exp)"

text \<open>After the decoding, \<open>decodeAccessToken\<close> writes a log line that prints the date of a
  truthy \<open>exp\<close>; what that throws leaves the function through its \<open>catch\<close>, which throws it
  again.\<close>

definition decodeAccessToken :: "deps \<Rightarrow> string \<Rightarrow> error + jsval" where
  "decodeAccessToken X accessToken =
     (let decoded = jwt_decode X accessToken in
      if \<not> truthy decoded \<or> typeof decoded \<noteq> ''object'' then Inl FailedToDecodeAccessToken
      else
        (let exp = member decoded ''exp'' in
         if truthy exp \<and> \<not> toISOString_returns X exp then Inl RangeError
         else Inr decoded))"

section \<open>services/redisService.ts\<close>

definition randomUUID :: "string io" where
  "randomUUID = bind (randomBytes 16) (\<lambda>r. return (toHex r))"

definition session_payload :: "string \<Rightarrow> string \<Rightarrow> int \<Rightarrow> jsval" where
  "session_payload access_token auth0Id exp =
     JObj [(''accessToken'', JStr access_token), (''userId'', JStr auth0Id),
           (''accessExp'', JNum exp)]"

definition saveUserSessionRedis :: "deps \<Rightarrow> env \<Rightarrow> string \<Rightarrow> string \<Rightarrow> string option \<Rightarrow> string io" where
  "saveUserSessionRedis X E auth0Id access_token sessionId_arg =
     bind (if falsy sessionId_arg then randomUUID else return (the sessionId_arg)) (\<lambda>sessionId.
     bind (lift (decodeAccessToken X access_token)) (\<lambda>decoded.
       let exp = member decoded ''exp'' in
       if \<not> truthy exp \<or> typeof exp \<noteq> ''number'' then throw MissingExp
       else
         bind now (\<lambda>nowMs.
           let nowSec = nowMs div 1000;
               secondsUntilExp = max (num_of exp - nowSec) 1;
               effectiveTtl = max 1 (min (TTL E) secondsUntilExp);
               key = ''session:'' @ sessionId;
               inactivityKey = key @ '':active''
           in try_catch
                (bind (redis_set key (Encoded (session_payload access_token auth0Id (num_of exp)))
                         effectiveTtl) (\<lambda>_.
                 bind (redis_set inactivityKey (Text ''1'') (INACTIVITY_TIMEOUT E)) (\<lambda>_.
                 return sessionId)))
                (\<lambda>err. throw (RedisSaveFailed err)))))"

definition getUserSessionRedis :: "env \<Rightarrow> string \<Rightarrow> (jsval \<times> bool) io" where
  "getUserSessionRedis E sessionId =
     (let key = ''session:'' @ sessionId;
          activeKey = key @ '':active''
      in try_catch
           (bind (redis_get key) (\<lambda>sessionDataJson.
              if \<not> truthy_str sessionDataJson then throw SessionDataNotFound
              else
                bind (lift (JSON_parse (the sessionDataJson))) (\<lambda>sessionData.
                bind (redis_get activeKey) (\<lambda>activeVal.
                  if truthy_str activeVal then
                    bind (redis_pTTL activeKey) (\<lambda>ttlMs.
                      if ttlMs = - 2 then return (sessionData, False)
                      else if ttlMs = - 1 \<or> ttlMs < 180000 then
                        bind (redis_expire activeKey (INACTIVITY_TIMEOUT E)) (\<lambda>_.
                        return (sessionData, True))
                      else return (sessionData, True))
                  else return (sessionData, False)))))
           (\<lambda>err. throw (UnableToRetrieveSession err)))"

definition deleteUserSessionRedis :: "string \<Rightarrow> bool io" where
  "deleteUserSessionRedis sessionId =
     (let key = ''session:'' @ sessionId;
          activeKey = key @ '':active''
      in try_catch
           (bind (redis_unlink key) (\<lambda>deletedMain.
            bind (redis_unlink activeKey) (\<lambda>deletedActive.
            if deletedMain > 0 \<or> deletedActive > 0 then return True else return False)))
           (\<lambda>err. throw (RedisDeletionFailed err)))"

text \<open>The caller reads \<open>expiresIn\<close> from the provider's reply. The client sends a number as
  the expiry and leaves the option out when it is \<open>undefined\<close>, so that the token is stored
  without an expiry.\<close>

definition saveManagementAPITokenRedis :: "deps \<Rightarrow> env \<Rightarrow> jsval \<Rightarrow> jsval \<Rightarrow> unit io" where
  "saveManagementAPITokenRedis X E accessToken expiresIn =
     (let key = MANAGEMENT_API_KEY E in
      try_catch
        (case expiresIn of
           JNum n \<Rightarrow> redis_set key (Encoded accessToken) n
         | JUndefined \<Rightarrow> redis_set_plain key (Encoded accessToken)
         | _ \<Rightarrow>
             (case EX_option X expiresIn of
                None \<Rightarrow> throw RedisError
              | Some None \<Rightarrow> redis_set_plain key (Encoded accessToken)
              | Some (Some n) \<Rightarrow> redis_set key (Encoded accessToken) n))
        (\<lambda>err. throw (FailedToSaveManagementToken err)))"

definition getManagementAPITokenRedis :: "env \<Rightarrow> jsval io" where
  "getManagementAPITokenRedis E =
     try_catch
       (bind (redis_get (MANAGEMENT_API_KEY E)) (\<lambda>accessTokenJson.
          if \<not> truthy_str accessTokenJson then throw NoCachedManagementToken
          else lift (JSON_parse (the accessTokenJson))))
       (\<lambda>err. throw (FailedToRetrieveManagementToken err))"

section \<open>The Prisma client and services/prismaUserService.ts\<close>

definition user_findUnique :: "string \<Rightarrow> user_row option io" where
  "user_findUnique auth0Id =
     (\<lambda>w. let (f, w1) = io_tick w in
        if f then (Inl DatabaseError, w1) else (Inr (users w1 auth0Id), w1))"

text \<open>\<open>prisma.user.update\<close> rejects when no row matches.\<close>

definition user_update_plan :: "string \<Rightarrow> string \<Rightarrow> unit io" where
  "user_update_plan auth0Id newPlanId =
     (\<lambda>w. let (f, w1) = io_tick w in
        if f then (Inl DatabaseError, w1)
        else (case users w1 auth0Id of
                None \<Rightarrow> (Inl DatabaseError, w1)
              | Some u \<Rightarrow> (Inr (), w1\<lparr>users := (users w1)(auth0Id \<mapsto> u\<lparr>planId := newPlanId\<rparr>)\<rparr>)))"

definition unrevoked_for :: "string \<Rightarrow> string \<Rightarrow> token_row \<Rightarrow> bool" where
  "unrevoked_for sid userID r \<longleftrightarrow> rowSessionId r = sid \<and> rowUserId r = userID \<and> \<not> revoked r"

text \<open>\<open>updateMany({where: {sessionId, userId, revoked: false}, data: {revoked: true}})\<close>.\<close>

definition token_updateMany_revoke :: "string \<Rightarrow> string \<Rightarrow> unit io" where
  "token_updateMany_revoke sid userID =
     (\<lambda>w. let (f, w1) = io_tick w in
        if f then (Inl DatabaseError, w1)
        else (Inr (),
              w1\<lparr>ledger := map (\<lambda>r. if unrevoked_for sid userID r then r\<lparr>revoked := True\<rparr> else r)
                              (ledger w1)\<rparr>))"

text \<open>\<open>create\<close>: the column \<open>revoked\<close> defaults to false.\<close>

definition token_create :: "string \<Rightarrow> string \<Rightarrow> string \<Rightarrow> int \<Rightarrow> unit io" where
  "token_create userID encryptedToken sid expiryDate =
     (\<lambda>w. let (f, w1) = io_tick w in
        if f then (Inl DatabaseError, w1)
        else (Inr (),
              w1\<lparr>ledger := ledger w1 @
                   [\<lparr>rowUserId = userID, refreshToken = encryptedToken, rowSessionId = sid,
                     expiresAt = expiryDate, revoked = False\<rparr>]\<rparr>))"

definition valid_for :: "string \<Rightarrow> string \<Rightarrow> int \<Rightarrow> token_row \<Rightarrow> bool" where
  "valid_for sid userID t r \<longleftrightarrow> unrevoked_for sid userID r \<and> expiresAt r > t"

definition token_findFirst :: "string \<Rightarrow> string \<Rightarrow> int \<Rightarrow> token_row option io" where
  "token_findFirst sid userID t =
     (\<lambda>w. let (f, w1) = io_tick w in
        if f then (Inl DatabaseError, w1)
        else (Inr (find (valid_for sid userID t) (ledger w1)), w1))"

definition getUserIdByAuth0 :: "string \<Rightarrow> string io" where
  "getUserIdByAuth0 auth0Id =
     bind (user_findUnique auth0Id) (\<lambda>user.
       case user of None \<Rightarrow> throw UserNotFound | Some u \<Rightarrow> return (uid u))"

definition IV_LENGTH :: nat where
  "IV_LENGTH = 16"

definition saveRefreshTokenPrisma ::
    "deps \<Rightarrow> env \<Rightarrow> string \<Rightarrow> jsval \<Rightarrow> string \<Rightarrow> utf16 option \<Rightarrow> unit io" where
  "saveRefreshTokenPrisma X E sid newRefreshToken auth0Id oldRefreshToken =
     bind now (\<lambda>nowMs.
       let expiryDate = nowMs + AUTH0_REFRESH_TOKEN_EXPIRY E * 1000 in
       try_catch
         (bind (getUserIdByAuth0 auth0Id) (\<lambda>userID.
          bind (if \<not> falsy oldRefreshToken then token_updateMany_revoke sid userID
                else return ()) (\<lambda>_.
          bind (case newRefreshToken of
                  JStr t \<Rightarrow> encryptToken X (units t) (ENCRYPTION_KEY E) IV_LENGTH
                | _ \<Rightarrow> throw TypeError) (\<lambda>encryptedToken.
          token_create userID encryptedToken sid expiryDate))))
         (\<lambda>err. throw err))"

definition fetchRefreshTokenPrisma :: "deps \<Rightarrow> env \<Rightarrow> string \<Rightarrow> string \<Rightarrow> utf16 io" where
  "fetchRefreshTokenPrisma X E sid auth0Id =
     try_catch
       (bind (getUserIdByAuth0 auth0Id) (\<lambda>userID.
        bind now (\<lambda>nowMs.
        bind (token_findFirst sid userID nowMs) (\<lambda>refreshTokenData.
          case refreshTokenData of
            None \<Rightarrow> throw NoValidRefreshTokenFound
          | Some row \<Rightarrow> lift (decryptToken X (refreshToken row) (ENCRYPTION_KEY E))))))
       (\<lambda>err. throw err)"

text \<open>The second argument is read from parsed JSON by two callers, and Prisma rejects an
  \<open>auth0Id\<close> that is not a string.\<close>

definition revokeRefreshTokenPrisma :: "string \<Rightarrow> jsval \<Rightarrow> unit io" where
  "revokeRefreshTokenPrisma sid auth0Id =
     try_catch
       (bind (case auth0Id of JStr a \<Rightarrow> getUserIdByAuth0 a | _ \<Rightarrow> throw DatabaseError)
          (\<lambda>userID. token_updateMany_revoke sid userID))
       (\<lambda>err. throw err)"

definition updateUserPlanPrisma :: "string \<Rightarrow> string \<Rightarrow> string \<Rightarrow> unit io" where
  "updateUserPlanPrisma auth0Id newPlanId updatedAt =
     try_catch (user_update_plan auth0Id newPlanId) (\<lambda>err. throw err)"

section \<open>axios and services/managementService.ts\<close>

text \<open>An axios call: the request goes out, and the promise rejects on a network failure
  or on a status outside 2xx.\<close>

definition axios :: "deps \<Rightarrow> request \<Rightarrow> reply io" where
  "axios X req =
     (\<lambda>w. let (f, w1) = io_tick w;
              w2 = w1\<lparr>calls := calls w1 @ [req]\<rparr>;
              response = http X req
          in if f \<or> \<not> (200 \<le> status response \<and> status response < 300)
             then (Inl RequestFailed, w2)
             else (Inr response, w2))"

definition fetchUserRoleService :: "deps \<Rightarrow> jsval \<Rightarrow> string \<Rightarrow> jsval io" where
  "fetchUserRoleService X accessToken auth0Id =
     try_catch
       (bind (axios X (GetUserRoles accessToken auth0Id)) (\<lambda>response.
          if status response \<noteq> 200 then throw (UnexpectedStatus (status response))
          else
            (case data response of
               JArr roles \<Rightarrow>
                 (case roles of
                    [] \<Rightarrow> throw NoRoleAssigned
                  | r # _ \<Rightarrow>
                      if r = JUndefined \<or> r = JNull then throw TypeError
                      else return (member r ''id''))
             | _ \<Rightarrow> throw NoRoleAssigned)))
       (\<lambda>err. throw err)"

text \<open>\<open>deleteUserRole\<close> and \<open>updateUserRole\<close> both POST \<open>{roles: [roleId]}\<close> to the user's
  roles path.\<close>

definition deleteUserRole :: "deps \<Rightarrow> jsval \<Rightarrow> string \<Rightarrow> jsval \<Rightarrow> unit io" where
  "deleteUserRole X accessToken auth0Id role =
     try_catch
       (bind (axios X (PostUserRoles accessToken auth0Id role)) (\<lambda>response.
          if status response \<noteq> 204 then throw (UnexpectedStatus (status response))
          else return ()))
       (\<lambda>err. throw err)"

definition updateUserRole :: "deps \<Rightarrow> jsval \<Rightarrow> string \<Rightarrow> jsval \<Rightarrow> unit io" where
  "updateUserRole X accessToken auth0Id newRoleId =
     try_catch
       (bind (axios X (PostUserRoles accessToken auth0Id newRoleId)) (\<lambda>response.
          if status response \<noteq> 204 then throw (UnexpectedStatus (status response))
          else return ()))
       (\<lambda>err. throw err)"

section \<open>services/authService.ts\<close>

text \<open>Destructuring \<open>const {a, b} = response.data\<close> throws on \<open>null\<close> and \<open>undefined\<close>.\<close>

definition destructure :: "jsval \<Rightarrow> jsval io" where
  "destructure v = (if v = JUndefined \<or> v = JNull then throw TypeError else return v)"

definition refreshTokenService :: "deps \<Rightarrow> env \<Rightarrow> string \<Rightarrow> string \<Rightarrow> string io" where
  "refreshTokenService X E auth0Id sid =
     try_catch
       (bind (fetchRefreshTokenPrisma X E sid auth0Id) (\<lambda>oldRefreshToken.
        bind (axios X (RefreshTokenGrant oldRefreshToken)) (\<lambda>response.
        bind (destructure (data response)) (\<lambda>body.
          let access_token = member body ''access_token'';
              refresh_token = member body ''refresh_token''
          in if \<not> truthy access_token \<or> \<not> truthy refresh_token
             then throw Auth0DidNotReturnValidTokens
             else
               bind (verifyAccessToken X access_token) (\<lambda>_.
               bind (case access_token of
                       JStr a \<Rightarrow> saveUserSessionRedis X E auth0Id a (Some sid)
                     | _ \<Rightarrow> throw TypeError) (\<lambda>_.
               bind (saveRefreshTokenPrisma X E sid refresh_token auth0Id (Some oldRefreshToken))
                 (\<lambda>_.
               (case access_token of JStr a \<Rightarrow> return a | _ \<Rightarrow> throw TypeError))))))))
       (\<lambda>err. throw err)"

definition getManagementAPIToken :: "deps \<Rightarrow> env \<Rightarrow> jsval io" where
  "getManagementAPIToken X E =
     try_catch
       (bind (axios X ClientCredentialsGrant) (\<lambda>response.
        bind (destructure (data response)) (\<lambda>body.
          let access_token = member body ''access_token'';
              expires_in = member body ''expires_in''
          in bind (verifyAccessToken X access_token) (\<lambda>_.
             bind (saveManagementAPITokenRedis X E access_token expires_in) (\<lambda>_.
             return access_token)))))
       (\<lambda>err. throw err)"

text \<open>\<open>logoutService\<close> reads the property \<open>user_id\<close> of the session it fetched.\<close>

definition logoutService :: "deps \<Rightarrow> env \<Rightarrow> string \<Rightarrow> unit io" where
  "logoutService X E sid =
     try_catch
       (bind (getUserSessionRedis E sid) (\<lambda>(sessionData, active).
        bind (if truthy sessionData \<and> truthy (member sessionData ''user_id'')
              then revokeRefreshTokenPrisma sid (member sessionData ''user_id'')
              else return ()) (\<lambda>_.
        bind (try_catch (bind (deleteUserSessionRedis sid) (\<lambda>_. return ()))
                (\<lambda>err. return ())) (\<lambda>_.
        bind (axios X LogoutRedirect) (\<lambda>_.
        return ())))))
       (\<lambda>err. throw err)"

section \<open>lib/session/refreshAccessToken.ts\<close>

text \<open>The typed session payload of \<open>types/userSession.d.ts\<close>.\<close>

record sessionData =
  userId :: string
  accessToken :: string
  accessExp :: int

text \<open>The result \<open>{refreshed, accessToken}\<close> is the pair \<open>(refreshed, accessToken)\<close>.\<close>

definition maybeRefreshAccessToken ::
    "deps \<Rightarrow> env \<Rightarrow> string \<Rightarrow> sessionData \<Rightarrow> (bool \<times> string) io" where
  "maybeRefreshAccessToken X E sid sd =
     try_catch
       (let expiryTime = accessExp sd * 1000 in
        bind now (\<lambda>currentTime.
          let timeLeft = expiryTime - currentTime in
          if timeLeft \<le> REFRESH_TOKEN_WINDOW E then
            bind (refreshTokenService X E (userId sd) sid) (\<lambda>newAccessToken.
            return (True, newAccessToken))
          else return (False, accessToken sd)))
       (\<lambda>error. return (False, accessToken sd))"

section \<open>lib/session/sessionHandler.ts\<close>

datatype sessionStatus = NotFound | Expired | Valid

record gate_result =
  success :: bool
  code :: sessionStatus
  gateSession :: "jsval option"

definition getValidSessionOrRevoke :: "env \<Rightarrow> string \<Rightarrow> gate_result io" where
  "getValidSessionOrRevoke E sid =
     try_catch
       (bind (getUserSessionRedis E sid) (\<lambda>(sessionData, active).
          if \<not> truthy sessionData then
            return \<lparr>success = False, code = NotFound, gateSession = None\<rparr>
          else if \<not> active then
            bind (try_catch (revokeRefreshTokenPrisma sid (member sessionData ''userId''))
                    (\<lambda>e. return ())) (\<lambda>_.
            bind (try_catch (bind (deleteUserSessionRedis sid) (\<lambda>_. return ()))
                    (\<lambda>e. return ())) (\<lambda>_.
            return \<lparr>success = False, code = Expired, gateSession = None\<rparr>))
          else return \<lparr>success = True, code = Valid, gateSession = Some sessionData\<rparr>))
       (\<lambda>err. return \<lparr>success = False, code = NotFound, gateSession = None\<rparr>)"

section \<open>The UpdateUserPlan handler\<close>

record plan_response =
  ok :: bool
  error_message :: string
  response_code :: nat

text \<open>The steps inside the handler's last \<open>try\<close> block.\<close>

definition updateUserPlan_core :: "deps \<Rightarrow> env \<Rightarrow> string \<Rightarrow> string \<Rightarrow> string \<Rightarrow> plan_response io" where
  "updateUserPlan_core X E auth0_id new_plan_id updated_at =
     (let newRoleEntry = find (\<lambda>(_, p). plan_id p = new_plan_id) (PLAN_MAPPING X);
          newRoleId = (case newRoleEntry of None \<Rightarrow> JUndefined | Some (_, p) \<Rightarrow> JStr (roleId p))
      in bind (updateUserPlanPrisma auth0_id new_plan_id updated_at) (\<lambda>_.
         bind (try_catch (getManagementAPITokenRedis E) (\<lambda>_. getManagementAPIToken X E))
           (\<lambda>managementAccessToken.
         bind (fetchUserRoleService X managementAccessToken auth0_id) (\<lambda>currentRole.
           if newRoleId = currentRole then
             return \<lparr>ok = True, error_message = [], response_code = 200\<rparr>
           else
             bind (deleteUserRole X managementAccessToken auth0_id currentRole) (\<lambda>_.
             bind (updateUserRole X managementAccessToken auth0_id newRoleId) (\<lambda>_.
             return \<lparr>ok = True, error_message = [], response_code = 200\<rparr>))))))"

definition updateUserPlanService ::
    "deps \<Rightarrow> env \<Rightarrow> string option \<Rightarrow> string \<Rightarrow> string \<Rightarrow> string \<Rightarrow> plan_response io" where
  "updateUserPlanService X E authHeader auth0_id new_plan_id updated_at =
     (if falsy authHeader \<or> take 7 (the authHeader) \<noteq> ''Bearer '' then
        return \<lparr>ok = False, error_message = ''Unauthenticated'', response_code = 401\<rparr>
      else
        bind (try_catch
                (bind (verifyAccessToken X
                         (case element (splitOn (CHR '' '') (the authHeader)) 1 of
                            None \<Rightarrow> JUndefined
                          | Some t \<Rightarrow> JStr t)) (\<lambda>_. return True))
                (\<lambda>err. return False)) (\<lambda>authenticated.
          if \<not> authenticated then
            return \<lparr>ok = False, error_message = ''Unauthenticated'', response_code = 401\<rparr>
          else if auth0_id = [] then
            return \<lparr>ok = False, error_message = ''Missing user identifier'', response_code = 400\<rparr>
          else
            try_catch (updateUserPlan_core X E auth0_id new_plan_id updated_at)
              (\<lambda>err. return \<lparr>ok = False, error_message = ''Internal server error'',
                               response_code = 500\<rparr>)))"

section \<open>Predicates used in the statements\<close>

text \<open>The blob consists of three non-empty colon-delimited segments.\<close>

definition three_segments :: "string \<Rightarrow> bool" where
  "three_segments blob \<longleftrightarrow>
     (case splitOn (CHR '':'') blob of
        [iv, authTag, encrypted] \<Rightarrow> iv \<noteq> [] \<and> authTag \<noteq> [] \<and> encrypted \<noteq> []
      | _ \<Rightarrow> False)"

definition segment :: "string \<Rightarrow> nat \<Rightarrow> string option" where
  "segment blob i = element (splitOn (CHR '':'') blob) i"

text \<open>One of the first three segments is missing or empty.\<close>

definition leading_segment_missing :: "string \<Rightarrow> bool" where
  "leading_segment_missing blob \<longleftrightarrow>
     falsy (segment blob 0) \<or> falsy (segment blob 1) \<or> falsy (segment blob 2)"

text \<open>What the cipher answers on the decoded first three segments; it refuses a
  ciphertext segment of odd length.\<close>

definition opened :: "deps \<Rightarrow> string \<Rightarrow> bytes \<Rightarrow> bytes option" where
  "opened X blob key =
     (if odd (length (the (segment blob 2))) then None
      else unseal X key (fromHex (the (segment blob 0))) (fromHex (the (segment blob 1)))
             (fromHex (the (segment blob 2))))"

text \<open>Blobs as \<open>encryptToken\<close> writes them: three segments of hex digit pairs. Every
  row of the ledger is inserted by \<open>saveRefreshTokenPrisma\<close>, which stores such a blob.\<close>

definition is_hex :: "string \<Rightarrow> bool" where
  "is_hex s \<longleftrightarrow> even (length s) \<and> (\<forall>c\<in>set s. hex_val c \<noteq> None)"

definition written_blob :: "string \<Rightarrow> bool" where
  "written_blob blob \<longleftrightarrow>
     (case splitOn (CHR '':'') blob of
        [iv, authTag, encrypted] \<Rightarrow> is_hex iv \<and> is_hex authTag \<and> is_hex encrypted
      | _ \<Rightarrow> False)"

definition ledger_written :: "world \<Rightarrow> bool" where
  "ledger_written w \<longleftrightarrow> (\<forall>r\<in>set (ledger w). written_blob (refreshToken r))"

text \<open>The ledger after a rotation for session \<open>sid\<close> of the user with id \<open>userID\<close>.\<close>

definition rotated :: "string \<Rightarrow> string \<Rightarrow> token_row list \<Rightarrow> token_row \<Rightarrow> token_row list" where
  "rotated sid userID rows new =
     map (\<lambda>r. if unrevoked_for sid userID r then r\<lparr>revoked := True\<rparr> else r) rows @ [new]"

text \<open>A computation that leaves the ledger as it found it, whatever it returns.\<close>

definition keeps_ledger :: "'a io \<Rightarrow> bool" where
  "keeps_ledger m \<longleftrightarrow> (\<forall>w r w'. m w = (r, w') \<longrightarrow> ledger w' = ledger w)"


text \<open>Unicode scalar values: the code points outside the surrogate range.\<close>

definition scalar :: "nat \<Rightarrow> bool" where
  "scalar cp \<longleftrightarrow> cp < 0xD800 \<or> 0xE000 \<le> cp \<and> cp < 0x110000"

text \<open>The environment's part in a run: \<open>served n w\<close> holds when none of the next \<open>n\<close> I/O
  calls is rejected, and \<open>after n w\<close> is the world once the time of those calls has
  passed.\<close>

fun served :: "nat \<Rightarrow> world \<Rightarrow> bool" where
  "served 0 w = True"
| "served (Suc n) w = (\<not> fst (io_tick w) \<and> served n (snd (io_tick w)))"

fun after :: "nat \<Rightarrow> world \<Rightarrow> world" where
  "after 0 w = w"
| "after (Suc n) w = after n (snd (io_tick w))"

section \<open>A concrete setting for running the model\<close>

text \<open>A stand-in for the libraries and the provider, used only to evaluate the model on
  concrete inputs: the cipher takes keys of 32 bytes, reverses the text and tags it with
  the first half of the key; of the values that are not numbers only booleans, \<open>null\<close> and
  strings of digits have a date; the Redis client leaves out an expiry that is not a
  number.\<close>

definition key0 :: bytes where
  "key0 = ''0123456789abcdef0123456789abcdef''"

definition key1 :: bytes where
  "key1 = ''fedcba9876543210fedcba9876543210''"

definition demo :: deps where
  "demo =
     \<lparr>seal = (\<lambda>k iv pt. if length k = 32 \<and> iv \<noteq> [] then Some (rev pt, take 16 k) else None),
      unseal = (\<lambda>k iv tag ct. if length k = 32 \<and> iv \<noteq> [] \<and> tag = take 16 k then Some (rev ct)
                                else None),
      jwt_decode = (\<lambda>t. if t = ''access-new'' then JObj [(''exp'', JNum 5000)]
                         else if t = ''access-epoch'' then JObj [(''exp'', JNum 0)]
                         else if t = ''access-noexp'' then JObj [(''sub'', JStr ''u1'')]
                         else if t = ''access-far'' then JObj [(''exp'', JNum 10000000000000)]
                         else if t = ''access-text'' then JObj [(''exp'', JStr ''abc'')]
                         else JNull),
      jwt_verify = (\<lambda>t. t = ''access-new'' \<or> t = ''machine''),
      http = (\<lambda>req. case req of
                RefreshTokenGrant r \<Rightarrow>
                  \<lparr>status = 200,
                   data = JObj [(''access_token'', JStr ''access-new''),
                                (''refresh_token'', JStr ''refresh-new'')]\<rparr>
              | ClientCredentialsGrant \<Rightarrow>
                  \<lparr>status = 200,
                   data = JObj [(''access_token'', JStr ''machine''), (''expires_in'', JNum 60)]\<rparr>
              | GetUserRoles t u \<Rightarrow>
                  \<lparr>status = 200, data = JArr [JObj [(''id'', JStr ''role_free'')]]\<rparr>
              | PostUserRoles t u r \<Rightarrow>
                  \<lparr>status = (if r = JUndefined then 400 else 204), data = JUndefined\<rparr>
              | LogoutRedirect \<Rightarrow> \<lparr>status = 200, data = JUndefined\<rparr>),
      PLAN_MAPPING = [(''free'', \<lparr>plan_id = ''plan_free'', roleId = ''role_free''\<rparr>),
                      (''premium'', \<lparr>plan_id = ''plan_premium'', roleId = ''role_premium''\<rparr>)],
      coerces_to_date = (\<lambda>v. case v of
                           JBool b \<Rightarrow> True
                         | JNull \<Rightarrow> True
                         | JStr s \<Rightarrow> list_all (\<lambda>c. c \<in> set ''0123456789'') s
                         | _ \<Rightarrow> False),
      EX_option = (\<lambda>v. Some None)\<rparr>"

text \<open>Blobs under \<open>key0\<close> with a nonce of 16 zero bytes: the token \<open>tok\<close> as
  \<open>encryptToken\<close> writes it, the empty token, the string that is a single high
  surrogate, and four alterations of the first.\<close>

definition sealed_tok :: string where
  "sealed_tok = ''00000000000000000000000000000000:30313233343536373839616263646566:6b6f74''"

definition sealed_empty :: string where
  "sealed_empty = ''00000000000000000000000000000000:30313233343536373839616263646566:''"

definition sealed_surrogate :: string where
  "sealed_surrogate = ''00000000000000000000000000000000:30313233343536373839616263646566:bdbfef''"

definition with_fourth_segment :: string where
  "with_fourth_segment = ''00000000000000000000000000000000:30313233343536373839616263646566:6b6f74:ff''"

definition with_flipped_case :: string where
  "with_flipped_case = ''00000000000000000000000000000000:30313233343536373839616263646566:6B6f74''"

definition with_odd_ciphertext :: string where
  "with_odd_ciphertext = ''00000000000000000000000000000000:30313233343536373839616263646566:6b6f7''"

definition two_segments :: string where
  "two_segments = ''00000000000000000000000000000000:30313233343536373839616263646566''"

definition env0 :: env where
  "env0 = \<lparr>TTL = 86400, INACTIVITY_TIMEOUT = 900, AUTH0_REFRESH_TOKEN_EXPIRY = 31557600,
           ENCRYPTION_KEY = key0, MANAGEMENT_API_KEY = ''mgmt'', REFRESH_TOKEN_WINDOW = 60000\<rparr>"

definition quiet :: world where
  "quiet = \<lparr>redis = (\<lambda>k. None), users = (\<lambda>a. None), ledger = [], clock = 0, schedule = [],
            entropy = [], calls = []\<rparr>"

text \<open>A store that holds session \<open>s1\<close> of user \<open>u1\<close> and its liveness marker, read at a
  moment when the marker has 100 seconds left, and a ledger with the session's refresh
  token, sealed by the stand-in cipher.\<close>

definition busy :: world where
  "busy =
     \<lparr>redis = (\<lambda>k. if k = ''session:s1'' then
                       Some \<lparr>rvalue = Encoded (session_payload ''access-old'' ''u1'' 830),
                             stamped = 0, ttl = Some 86400\<rparr>
                     else if k = ''session:s1:active'' then
                       Some \<lparr>rvalue = Text ''1'', stamped = 0, ttl = Some 900\<rparr>
                     else None),
      users = (\<lambda>a. if a = ''u1'' then Some \<lparr>uid = ''id1'', planId = ''plan_free''\<rparr> else None),
      ledger = [\<lparr>rowUserId = ''id1'', refreshToken = ''00:30313233343536373839616263646566:646c6f'',
                 rowSessionId = ''s1'',
                 expiresAt = 90000000, revoked = False\<rparr>],
      clock = 800000,
      schedule = [\<lparr>elapsed = 5, fails = False\<rparr>],
      entropy = [],
      calls = []\<rparr>"


definition redis_down :: world where
  "redis_down = busy\<lparr>schedule := [\<lparr>elapsed = 0, fails = True\<rparr>]\<rparr>"

text \<open>The same store read at moments when the marker is about to lapse: with 100
  milliseconds left and Redis taking 200 for each call, and with one second left and
  Redis taking two seconds for the fourth call.\<close>




text \<open>The session payload as \<open>maybeRefreshAccessToken\<close> receives it: the access token of
  session \<open>s1\<close> expires 30 seconds after the clock of \<open>busy\<close>.\<close>

definition session1 :: sessionData where
  "session1 = \<lparr>userId = ''u1'', accessToken = ''access-old'', accessExp = 830\<rparr>"

text \<open>Ways for a refresh to fail: no record in the ledger, the provider unreachable at the
  third I/O call, Redis rejecting the write at the fourth, a provider that omits the
  refresh token, and a new access token that does not verify.\<close>

definition no_token :: world where
  "no_token = busy\<lparr>ledger := []\<rparr>"

definition provider_down :: world where
  "provider_down =
     busy\<lparr>schedule := [\<lparr>elapsed = 1, fails = False\<rparr>, \<lparr>elapsed = 1, fails = False\<rparr>,
                        \<lparr>elapsed = 1, fails = True\<rparr>]\<rparr>"

definition redis_write_fails :: world where
  "redis_write_fails =
     busy\<lparr>schedule := [\<lparr>elapsed = 1, fails = False\<rparr>, \<lparr>elapsed = 1, fails = False\<rparr>,
                        \<lparr>elapsed = 1, fails = False\<rparr>, \<lparr>elapsed = 1, fails = True\<rparr>]\<rparr>"

definition demo_no_refresh_token :: deps where
  "demo_no_refresh_token =
     demo\<lparr>http := (\<lambda>req. \<lparr>status = 200, data = JObj [(''access_token'', JStr ''access-new'')]\<rparr>)\<rparr>"

definition demo_unverified :: deps where
  "demo_unverified = demo\<lparr>jwt_verify := (\<lambda>t. False)\<rparr>"

text \<open>The world after the rotation of session \<open>s1\<close>.\<close>

definition rotated_world :: world where
  "rotated_world = snd (maybeRefreshAccessToken demo env0 ''s1'' session1 busy)"


section \<open>The monad's laws of motion\<close>

lemma bind_Inr:
  "bind m f w = (Inr y, w') \<Longrightarrow> \<exists>x w1. m w = (Inr x, w1) \<and> f x w1 = (Inr y, w')"
  by (cases "m w") (auto simp: bind_def split: sum.splits)

lemma try_catch_rethrow: "try_catch m (\<lambda>err. throw err) = m"
  by (rule ext) (auto simp: try_catch_def throw_def split: prod.splits sum.splits)

lemma try_catch_wrap_Inr:
  "try_catch m (\<lambda>err. throw (F err)) w = (Inr y, w') \<Longrightarrow> m w = (Inr y, w')"
  by (cases "m w") (auto simp: try_catch_def throw_def split: sum.splits)

lemma with_snd: "fst p = a \<Longrightarrow> p = (a, snd p)"
  by (cases p) simp

section \<open>Hex text and splitting\<close>

lemma hex_digit_table:
  "\<forall>d \<in> set [0..<16]. hex_val (hex_digit d) = Some d \<and> hex_digit d \<noteq> CHR '':''"
  by code_simp

lemma hex_val_digit: "d < 16 \<Longrightarrow> hex_val (hex_digit d) = Some d"
  using hex_digit_table by simp

lemma hex_digit_not_colon: "d < 16 \<Longrightarrow> hex_digit d \<noteq> CHR '':''"
  using hex_digit_table by simp

lemma of_char_div16: "(of_char c :: nat) div 16 < 16"
proof -
  have "(of_char c :: nat) < 256" by simp
  then show ?thesis by (simp add: less_mult_imp_div_less)
qed

lemma fromHex_toHex_byte: "fromHex (toHex_byte c @ rest) = c # fromHex rest"
  by (simp add: toHex_byte_def hex_val_digit [OF of_char_div16] hex_val_digit)

lemma fromHex_toHex_append: "fromHex (toHex bs @ rest) = bs @ fromHex rest"
  by (induction bs) (simp_all add: toHex_def fromHex_toHex_byte)

lemma fromHex_toHex: "fromHex (toHex bs) = bs"
  using fromHex_toHex_append [of bs "[]"] by simp

lemma colon_notin_toHex: "CHR '':'' \<notin> set (toHex bs)"
  by (induction bs)
     (simp_all add: toHex_def toHex_byte_def hex_digit_not_colon [OF of_char_div16, symmetric]
        hex_digit_not_colon [symmetric])

lemma toHex_eq_Nil: "toHex bs = [] \<longleftrightarrow> bs = []"
  by (cases bs) (simp_all add: toHex_def toHex_byte_def)

lemma splitOn_not_Nil: "splitOn d s \<noteq> []"
  by (induction s) (auto split: list.splits)

lemma splitOn_no_sep: "d \<notin> set a \<Longrightarrow> splitOn d a = [a]"
  by (induction a) auto

lemma splitOn_first: "d \<notin> set a \<Longrightarrow> splitOn d (a @ d # rest) = a # splitOn d rest"
  by (induction a) (auto split: list.splits)

lemma splitOn_blob:
  "splitOn (CHR '':'') (toHex a @ CHR '':'' # toHex b @ CHR '':'' # toHex c) =
     [toHex a, toHex b, toHex c]"
  using splitOn_first [OF colon_notin_toHex, of a] splitOn_first [OF colon_notin_toHex, of b]
    splitOn_no_sep [OF colon_notin_toHex, of c]
  by simp

lemma even_length_toHex: "even (length (toHex bs))"
  by (induction bs) (simp_all add: toHex_def toHex_byte_def)

section \<open>UTF-8\<close>

lemma div64: "(n::nat) div 64 = n div 4096 * 64 + n div 64 mod 64"
proof -
  have e: "n div 64 div 64 * 64 + n div 64 mod 64 = n div 64" by (rule div_mult_mod_eq)
  have d: "n div 64 div 64 = n div 4096" by (simp add: div_mult2_eq [symmetric])
  from e [unfolded d] show ?thesis by (rule sym)
qed

lemma div4096: "(n::nat) div 4096 = n div 262144 * 64 + n div 4096 mod 64"
proof -
  have e: "n div 4096 div 64 * 64 + n div 4096 mod 64 = n div 4096" by (rule div_mult_mod_eq)
  have d: "n div 4096 div 64 = n div 262144" by (simp add: div_mult2_eq [symmetric])
  from e [unfolded d] show ?thesis by (rule sym)
qed

lemma split3: "(n::nat) div 0x1000 * 0x1000 + n div 0x40 mod 0x40 * 0x40 + n mod 0x40 = n"
proof -
  have "n div 4096 * 4096 + n div 64 mod 64 * 64 + n mod 64
          = (n div 4096 * 64 + n div 64 mod 64) * 64 + n mod 64"
    by (simp add: algebra_simps)
  also have "\<dots> = n div 64 * 64 + n mod 64" by (simp only: div64 [symmetric])
  also have "\<dots> = n" by simp
  finally show ?thesis .
qed

lemma split4:
  "(n::nat) div 0x40000 * 0x40000 + n div 0x1000 mod 0x40 * 0x1000 + n div 0x40 mod 0x40 * 0x40
     + n mod 0x40 = n"
proof -
  have "n div 262144 * 262144 + n div 4096 mod 64 * 4096 + n div 64 mod 64 * 64 + n mod 64
          = (n div 262144 * 64 + n div 4096 mod 64) * 4096 + n div 64 mod 64 * 64 + n mod 64"
    by (simp add: algebra_simps)
  also have "\<dots> = n div 4096 * 4096 + n div 64 mod 64 * 64 + n mod 64"
    by (simp only: div4096 [symmetric])
  also have "\<dots> = n" by (rule split3)
  finally show ?thesis .
qed

lemma div_less_bound: "(n::nat) < k * m \<Longrightarrow> n div m < k"
  by (simp add: less_mult_imp_div_less)

lemma div_ge_bound: "k * m \<le> (n::nat) \<Longrightarrow> 0 < m \<Longrightarrow> k \<le> n div m"
  by (simp add: less_eq_div_iff_mult_less_eq)

lemma lead3_zero: "(0x800::nat) \<le> n \<Longrightarrow> n div 0x1000 = 0 \<Longrightarrow> 32 \<le> n div 0x40 mod 0x40"
  using div64 [of n] div_ge_bound [of 32 64 n] by simp

lemma lead3_ed:
  "(n::nat) < 0xD800 \<or> 0xE000 \<le> n \<Longrightarrow> n div 0x1000 = 13 \<Longrightarrow> n div 0x40 mod 0x40 < 32"
proof -
  assume a: "n < 0xD800 \<or> 0xE000 \<le> n" and b: "n div 0x1000 = 13"
  have "n < 0xE000"
  proof (rule ccontr)
    assume "\<not> n < 0xE000"
    then have "14 \<le> n div 0x1000" by (intro div_ge_bound) simp_all
    with b show False by simp
  qed
  with a have "n < 0xD800" by simp
  then have "n div 0x40 < 864" by (intro div_less_bound) simp
  with div64 [of n] b show ?thesis by simp
qed

lemma lead4_zero: "(0x10000::nat) \<le> n \<Longrightarrow> n div 0x40000 = 0 \<Longrightarrow> 16 \<le> n div 0x1000 mod 0x40"
  using div4096 [of n] div_ge_bound [of 16 4096 n] by simp

lemma lead4_f4: "(n::nat) < 0x110000 \<Longrightarrow> n div 0x40000 = 4 \<Longrightarrow> n div 0x1000 mod 0x40 < 16"
  using div4096 [of n] div_less_bound [of n 272 4096] by simp

lemma scan2:
  "2 \<le> a \<Longrightarrow> a < 32 \<Longrightarrow> b < 64 \<Longrightarrow>
     utf8_scan ((0xC0 + a) # (0x80 + b) # rest) = (a * 0x40 + b) # utf8_scan rest"
  by (simp add: trail_def)

lemma scan3:
  "a < 16 \<Longrightarrow> b < 64 \<Longrightarrow> c < 64 \<Longrightarrow> (a = 0 \<longrightarrow> 32 \<le> b) \<Longrightarrow> (a = 13 \<longrightarrow> b < 32) \<Longrightarrow>
     utf8_scan ((0xE0 + a) # (0x80 + b) # (0x80 + c) # rest)
       = (a * 0x1000 + b * 0x40 + c) # utf8_scan rest"
  by (auto simp: trail_def)

lemma scan4:
  "a < 5 \<Longrightarrow> b < 64 \<Longrightarrow> c < 64 \<Longrightarrow> d < 64 \<Longrightarrow> (a = 0 \<longrightarrow> 16 \<le> b) \<Longrightarrow> (a = 4 \<longrightarrow> b < 16) \<Longrightarrow>
     utf8_scan ((0xF0 + a) # (0x80 + b) # (0x80 + c) # (0x80 + d) # rest)
       = (a * 0x40000 + b * 0x1000 + c * 0x40 + d) # utf8_scan rest"
  by (auto simp: trail_def)

lemma utf8_scan_utf8_of:
  assumes "scalar cp"
  shows "utf8_scan (utf8_of cp @ rest) = cp # utf8_scan rest"
proof -
  consider "cp < 0x80" | "0x80 \<le> cp" "cp < 0x800" | "0x800 \<le> cp" "cp < 0x10000"
    | "0x10000 \<le> cp" "cp < 0x110000"
    using assms unfolding scalar_def by atomize_elim arith
  then show ?thesis
  proof cases
    case 1
    then show ?thesis by (simp add: utf8_of_def)
  next
    case 2
    have "utf8_scan (utf8_of cp @ rest)
            = utf8_scan ((0xC0 + cp div 0x40) # (0x80 + cp mod 0x40) # rest)"
      using 2 by (simp add: utf8_of_def)
    also have "\<dots> = (cp div 0x40 * 0x40 + cp mod 0x40) # utf8_scan rest"
      using 2 div_ge_bound [of 2 64 cp] div_less_bound [of cp 32 64] by (intro scan2) simp_all
    also have "\<dots> = cp # utf8_scan rest" by simp
    finally show ?thesis .
  next
    case 3
    have "utf8_scan (utf8_of cp @ rest)
            = utf8_scan ((0xE0 + cp div 0x1000) # (0x80 + cp div 0x40 mod 0x40)
                           # (0x80 + cp mod 0x40) # rest)"
      using 3 by (simp add: utf8_of_def)
    also have "\<dots> = (cp div 0x1000 * 0x1000 + cp div 0x40 mod 0x40 * 0x40 + cp mod 0x40)
                       # utf8_scan rest"
      using 3 assms div_less_bound [of cp 16 4096] lead3_zero [of cp] lead3_ed [of cp]
      unfolding scalar_def by (intro scan3) simp_all
    also have "\<dots> = cp # utf8_scan rest" by (simp only: split3)
    finally show ?thesis .
  next
    case 4
    have "utf8_scan (utf8_of cp @ rest)
            = utf8_scan ((0xF0 + cp div 0x40000) # (0x80 + cp div 0x1000 mod 0x40)
                           # (0x80 + cp div 0x40 mod 0x40) # (0x80 + cp mod 0x40) # rest)"
      using 4 by (simp add: utf8_of_def)
    also have "\<dots> = (cp div 0x40000 * 0x40000 + cp div 0x1000 mod 0x40 * 0x1000
                        + cp div 0x40 mod 0x40 * 0x40 + cp mod 0x40) # utf8_scan rest"
      using 4 div_less_bound [of cp 5 262144] lead4_zero [of cp] lead4_f4 [of cp]
      by (intro scan4) simp_all
    also have "\<dots> = cp # utf8_scan rest" by (simp only: split4)
    finally show ?thesis .
  qed
qed

lemma utf8_scan_concat:
  "\<forall>cp\<in>set cps. scalar cp \<Longrightarrow> utf8_scan (concat (map utf8_of cps)) = cps"
  by (induction cps) (simp_all add: utf8_scan_utf8_of)

lemma utf8_of_bytes: "scalar cp \<Longrightarrow> \<forall>b\<in>set (utf8_of cp). b < 256"
  using div_less_bound [of cp 32 64] div_less_bound [of cp 16 4096] div_less_bound [of cp 5 262144]
  by (auto simp: utf8_of_def scalar_def)

lemma utf8_of_not_Nil: "utf8_of cp \<noteq> []"
  by (simp add: utf8_of_def)

lemma utf16_of_not_Nil: "utf16_of cp \<noteq> []"
  by (simp add: utf16_of_def)

lemma pair_scalar:
  assumes "is_high u" and "is_low v"
  shows "scalar (0x10000 + (u - 0xD800) * 0x400 + (v - 0xDC00))"
    and "utf16_of (0x10000 + (u - 0xD800) * 0x400 + (v - 0xDC00)) = [u, v]"
proof -
  define a where "a = u - 0xD800"
  define b where "b = v - 0xDC00"
  from assms have u: "u = 0xD800 + a" and a: "a < 0x400" and v: "v = 0xDC00 + b" and b: "b < 0x400"
    unfolding is_high_def is_low_def a_def b_def by linarith+
  show "scalar (0x10000 + (u - 0xD800) * 0x400 + (v - 0xDC00))"
    using a b unfolding u v scalar_def by simp
  show "utf16_of (0x10000 + (u - 0xD800) * 0x400 + (v - 0xDC00)) = [u, v]"
    using a b unfolding u v utf16_of_def by simp
qed

lemma well_formed_code_points:
  "well_formed s \<Longrightarrow>
     (\<forall>cp\<in>set (code_points s). scalar cp) \<and> concat (map utf16_of (code_points s)) = s"
proof (induction s rule: code_points.induct)
  case (1 u v rest)
  show ?case
  proof (cases "is_high u")
    case True
    with 1 have lo: "is_low v" and wf: "well_formed rest" by simp_all
    from 1(1) True lo wf have ih: "(\<forall>cp\<in>set (code_points rest). scalar cp)
        \<and> concat (map utf16_of (code_points rest)) = rest"
      by simp
    from True lo have cp: "code_points (u # v # rest)
        = (0x10000 + (u - 0xD800) * 0x400 + (v - 0xDC00)) # code_points rest"
      by simp
    show ?thesis unfolding cp using ih pair_scalar [OF True lo] by simp
  next
    case False
    with 1 have u: "u < 0x10000" "\<not> is_low u" and wf: "well_formed (v # rest)" by simp_all
    from 1(2) False wf have ih: "(\<forall>cp\<in>set (code_points (v # rest)). scalar cp)
        \<and> concat (map utf16_of (code_points (v # rest))) = v # rest"
      by simp
    from False u have cp: "code_points (u # v # rest) = u # code_points (v # rest)" by simp
    from False u have "scalar u" unfolding scalar_def is_low_def is_high_def by linarith
    moreover from u have "utf16_of u = [u]" by (simp add: utf16_of_def)
    ultimately show ?thesis unfolding cp using ih by simp
  qed
next
  case (2 u)
  then have "scalar u" by (simp add: scalar_def is_low_def is_high_def) linarith
  with 2 show ?case by (simp add: utf16_of_def)
next
  case 3
  show ?case by simp
qed

lemma of_char_char_of_list:
  "\<forall>b\<in>set ns. b < 256 \<Longrightarrow> map of_char (map char_of ns) = (ns :: nat list)"
  by (induction ns) simp_all

lemma utf8_roundtrip:
  assumes "well_formed s"
  shows "utf8_decode (utf8_encode s) = s"
proof -
  from well_formed_code_points [OF assms]
  have sc: "\<forall>cp\<in>set (code_points s). scalar cp"
    and rebuilt: "concat (map utf16_of (code_points s)) = s"
    by simp_all
  from sc have "\<forall>b\<in>set (concat (map utf8_of (code_points s))). b < 256"
    using utf8_of_bytes by auto
  then have "map of_char (utf8_encode s) = concat (map utf8_of (code_points s))"
    unfolding utf8_encode_def by (rule of_char_char_of_list)
  with utf8_scan_concat [OF sc] rebuilt show ?thesis by (simp add: utf8_decode_def)
qed

lemma code_points_not_Nil: "s \<noteq> [] \<Longrightarrow> code_points s \<noteq> []"
  by (cases s rule: code_points.cases) simp_all

lemma utf8_encode_not_Nil: "s \<noteq> [] \<Longrightarrow> utf8_encode s \<noteq> []"
  using code_points_not_Nil [of s] by (cases "code_points s") (simp_all add: utf8_encode_def utf8_of_not_Nil)

lemma utf8_scan_not_Nil: "bs \<noteq> [] \<Longrightarrow> utf8_scan bs \<noteq> []"
  by (cases bs) (auto split: list.splits)

lemma utf8_decode_not_Nil: "bs \<noteq> [] \<Longrightarrow> utf8_decode bs \<noteq> []"
  using utf8_scan_not_Nil [of "map of_char bs"]
  by (cases "utf8_scan (map of_char bs)") (simp_all add: utf8_decode_def utf16_of_not_Nil)

lemma well_formed_units: "well_formed (units t)"
proof -
  have "\<forall>u\<in>set s. u < 256 \<Longrightarrow> well_formed s" for s
    by (induction s rule: well_formed.induct) (auto simp: is_high_def is_low_def)
  then show ?thesis by (simp add: units_def)
qed

section \<open>The credential cipher\<close>

lemma randomBytes_length:
  "randomBytes n w = (r, w') \<Longrightarrow> \<exists>iv. r = Inr iv \<and> length iv = n"
  by (auto simp: randomBytes_def split: list.splits)

lemma encryptToken_result:
  assumes "encryptToken X token k n w = (Inr blob, w')"
  shows "\<exists>iv ct tag. length iv = n \<and> seal X k iv (utf8_encode token) = Some (ct, tag) \<and>
           blob = toHex iv @ CHR '':'' # toHex tag @ CHR '':'' # toHex ct"
proof -
  obtain r w1 where r: "randomBytes n w = (r, w1)" by (cases "randomBytes n w")
  from randomBytes_length [OF r] obtain iv where iv: "r = Inr iv" "length iv = n" by blast
  from assms r iv show ?thesis
    by (cases "seal X k iv (utf8_encode token)")
       (auto simp: encryptToken_def bind_def throw_def return_def)
qed

lemma encryptToken_returns:
  assumes "\<forall>iv. length iv = n \<longrightarrow> seal X k iv (utf8_encode token) \<noteq> None"
  shows "\<exists>blob w'. encryptToken X token k n w = (Inr blob, w')"
proof -
  obtain r w1 where r: "randomBytes n w = (r, w1)" by (cases "randomBytes n w")
  from randomBytes_length [OF r] obtain iv where iv: "r = Inr iv" "length iv = n" by blast
  with assms obtain ct tag where "seal X k iv (utf8_encode token) = Some (ct, tag)" by fastforce
  with r iv show ?thesis by (simp add: encryptToken_def bind_def return_def)
qed

lemma aead_ok_seal:
  "aead_ok X \<Longrightarrow> seal X k iv pt = Some (ct, tag) \<Longrightarrow>
     unseal X k iv tag ct = Some pt \<and> length ct = length pt \<and> tag \<noteq> []"
  unfolding aead_ok_def by blast

lemma aead_ok_unseal:
  "aead_ok X \<Longrightarrow> unseal X k iv tag ct = Some pt \<Longrightarrow> length pt = length ct"
  unfolding aead_ok_def by blast

lemma demo_ok: "aead_ok demo"
  by (auto simp: aead_ok_def demo_def split: if_splits)

lemma decryptToken_blob:
  assumes "iv \<noteq> []" "tag \<noteq> []" "ct \<noteq> []"
  shows "decryptToken X (toHex iv @ CHR '':'' # toHex tag @ CHR '':'' # toHex ct) k =
           (case unseal X k iv tag ct of
              None \<Rightarrow> Inl InvalidRefreshToken
            | Some t \<Rightarrow> Inr (utf8_decode t))"
  using assms
  by (simp add: decryptToken_def decryptToken_try_def splitOn_blob element_def toHex_eq_Nil
      fromHex_toHex even_length_toHex Let_def split: option.splits)

lemma decrypt_encrypt_coded:
  assumes "aead_ok X" and "token \<noteq> []" and "0 < iv_length"
    and "encryptToken X token k iv_length w = (Inr blob, w')"
  shows "decryptToken X blob k = Inr (utf8_decode (utf8_encode token))"
proof -
  from encryptToken_result [OF assms(4)] obtain iv ct tag where
    iv: "length iv = iv_length" and s: "seal X k iv (utf8_encode token) = Some (ct, tag)"
    and blob: "blob = toHex iv @ CHR '':'' # toHex tag @ CHR '':'' # toHex ct"
    by blast
  from aead_ok_seal [OF assms(1) s] have u: "unseal X k iv tag ct = Some (utf8_encode token)"
    and l: "length ct = length (utf8_encode token)" and t: "tag \<noteq> []"
    by simp_all
  from iv assms(3) have "iv \<noteq> []" by auto
  moreover from l utf8_encode_not_Nil [OF assms(2)] have "ct \<noteq> []" by auto
  ultimately show ?thesis using t u blob by (simp add: decryptToken_blob)
qed

lemma decrypt_encrypt:
  assumes "aead_ok X" and "token \<noteq> []" and "well_formed token" and "0 < iv_length"
    and "encryptToken X token k iv_length w = (Inr blob, w')"
  shows "decryptToken X blob k = Inr token"
  using decrypt_encrypt_coded [OF assms(1,2,4,5)] utf8_roundtrip [OF assms(3)] by simp

text \<open>
  C6 (as stated, for every plaintext string): two counterexamples. The ciphertext segment
  of the empty string is empty, so \<open>encryptToken\<close> writes a blob that ends in a colon,
  and \<open>decryptToken\<close> rejects that blob as malformed. And the string that consists of one
  high surrogate, \<open>'\ud800'\<close>, is encrypted as the three UTF-8 bytes of \<open>U+FFFD\<close>, so
  that decryption returns the string \<open>'\ufffd'\<close> and not the plaintext.
\<close>

theorem roundtrip_fails_on_empty_token:
  "fst (encryptToken demo [] key0 16 quiet) = Inr sealed_empty
   \<and> decryptToken demo sealed_empty key0 = Inl InvalidRefreshToken
   \<and> fst (encryptToken demo [0xD800] key0 16 quiet) = Inr sealed_surrogate
   \<and> decryptToken demo sealed_surrogate key0 = Inr [0xFFFD]"
  by code_simp

text \<open>The same happens with every cipher that keeps the length of the text.\<close>

lemma empty_token_never_decrypts:
  assumes "aead_ok X" and "encryptToken X [] k n w = (Inr blob, w')"
  shows "decryptToken X blob k = Inl InvalidRefreshToken"
proof -
  from encryptToken_result [OF assms(2)] obtain iv ct tag where
    s: "seal X k iv (utf8_encode []) = Some (ct, tag)"
    and blob: "blob = toHex iv @ CHR '':'' # toHex tag @ CHR '':'' # toHex ct"
    by blast
  from aead_ok_seal [OF assms(1) s] have "ct = []" by (simp add: utf8_encode_def)
  then show ?thesis using blob
    by (simp add: decryptToken_def decryptToken_try_def splitOn_blob element_def toHex_eq_Nil
        Let_def)
qed

lemma lone_surrogate_is_replaced:
  assumes "aead_ok X" and "0 < n" and "encryptToken X [0xD800] k n w = (Inr blob, w')"
  shows "decryptToken X blob k = Inr [0xFFFD]"
proof -
  have "utf8_decode (utf8_encode [0xD800]) = [0xFFFD]" by code_simp
  with decrypt_encrypt_coded [OF assms(1) _ assms(2,3)] show ?thesis by simp
qed

text \<open>
  C6 (amended): for every non-empty token without an unpaired surrogate and every nonce
  length above zero, \<open>encryptToken\<close> returns a blob under every key with which the
  cipher seals, and decrypting what \<open>encryptToken\<close> returned, under the same key, gives the
  token back.
\<close>

theorem encrypt_decrypt_roundtrip:
  assumes "aead_ok X" and "token \<noteq> []" and "well_formed token" and "0 < iv_length"
  shows "((\<forall>iv. length iv = iv_length \<longrightarrow> seal X k iv (utf8_encode token) \<noteq> None)
            \<longrightarrow> (\<exists>blob w'. encryptToken X token k iv_length w = (Inr blob, w')))
       \<and> (\<forall>blob w'. encryptToken X token k iv_length w = (Inr blob, w')
            \<longrightarrow> decryptToken X blob k = Inr token)"
  using encryptToken_returns [of iv_length X k token w] decrypt_encrypt [OF assms, of k w]
  by blast

theorem encrypt_decrypt_roundtrip_witness:
  "aead_ok demo \<and> units ''tok'' \<noteq> [] \<and> well_formed (units ''tok'') \<and> (0::nat) < 16
   \<and> fst (encryptToken demo (units ''tok'') key0 16 quiet) = Inr sealed_tok
   \<and> decryptToken demo sealed_tok key0 = Inr (units ''tok'')
   \<and> well_formed [0xD83D, 0xDE00, 0x20AC]
   \<and> decryptToken demo (projr (fst (encryptToken demo [0xD83D, 0xDE00, 0x20AC] key0 16 quiet)))
        key0 = Inr [0xD83D, 0xDE00, 0x20AC]"
proof -
  have e: "fst (encryptToken demo (units ''tok'') key0 16 quiet) = Inr sealed_tok" by code_simp
  have n: "units ''tok'' \<noteq> []" and p: "(0::nat) < 16" by (simp_all add: units_def)
  have f: "fst (encryptToken demo [0xD83D, 0xDE00, 0x20AC] key0 16 quiet)
             = Inr (projr (fst (encryptToken demo [0xD83D, 0xDE00, 0x20AC] key0 16 quiet)))"
    by code_simp
  have g: "well_formed [0xD83D, 0xDE00, 0x20AC]" by code_simp
  have m: "[0xD83D, 0xDE00, 0x20AC] \<noteq> ([] :: utf16)" by simp
  from encrypt_decrypt_roundtrip [OF demo_ok n well_formed_units p, of key0 quiet]
    with_snd [OF e]
  have h: "decryptToken demo sealed_tok key0 = Inr (units ''tok'')" by blast
  from encrypt_decrypt_roundtrip [OF demo_ok m g p, of key0 quiet] with_snd [OF f]
  have i: "decryptToken demo
             (projr (fst (encryptToken demo [0xD83D, 0xDE00, 0x20AC] key0 16 quiet))) key0
           = Inr [0xD83D, 0xDE00, 0x20AC]"
    by blast
  from demo_ok n well_formed_units [of "''tok''"] p e h g i show ?thesis by blast
qed

text \<open>
  C9 (as stated): two counterexamples. A blob of four segments does not consist of three
  segments, yet \<open>decryptToken\<close> reads the first three and returns the plaintext. And
  flipping one bit of the hex letter \<open>b\<close> of the ciphertext segment gives \<open>B\<close>, which
  decodes to the same byte, so the altered blob still decrypts.
\<close>

theorem decryptToken_accepts_altered_blobs:
  "\<not> three_segments with_fourth_segment
   \<and> decryptToken demo with_fourth_segment key0 = Inr (units ''tok'')
   \<and> with_flipped_case \<noteq> sealed_tok
   \<and> decryptToken demo with_flipped_case key0 = Inr (units ''tok'')"
  by code_simp

text \<open>Neither depends on the cipher: the segments after the third are never read.\<close>

lemma splitOn_append_segment:
  "\<exists>more. splitOn d (s @ d # extra) = splitOn d s @ more"
proof (induction s)
  case Nil
  show ?case by simp
next
  case (Cons c s)
  then obtain more where m: "splitOn d (s @ d # extra) = splitOn d s @ more" by blast
  show ?case
  proof (cases "c = d")
    case True
    with m show ?thesis by simp
  next
    case False
    obtain x xs where x: "splitOn d s = x # xs"
      using splitOn_not_Nil [of d s] by (cases "splitOn d s") auto
    with m False show ?thesis by simp
  qed
qed

lemma decryptToken_ignores_extra_segment:
  assumes "2 < length (splitOn (CHR '':'') blob)"
  shows "decryptToken X (blob @ CHR '':'' # extra) key = decryptToken X blob key"
proof -
  obtain more where
    m: "splitOn (CHR '':'') (blob @ CHR '':'' # extra) = splitOn (CHR '':'') blob @ more"
    using splitOn_append_segment by blast
  from assms have "\<And>i. i \<le> 2 \<Longrightarrow>
      element (splitOn (CHR '':'') blob @ more) i = element (splitOn (CHR '':'') blob) i"
    by (simp add: element_def nth_append)
  then show ?thesis
    by (simp add: decryptToken_def decryptToken_try_def m Let_def)
qed

lemma decryptToken_Inr:
  "decryptToken X blob key = Inr t \<Longrightarrow>
     \<not> leading_segment_missing blob \<and> (\<exists>pt. opened X blob key = Some pt \<and> t = utf8_decode pt)"
  by (auto simp: decryptToken_def decryptToken_try_def leading_segment_missing_def opened_def
      segment_def Let_def split: option.splits sum.splits if_splits)

text \<open>
  C9 (amended): \<open>decryptToken\<close> fails with the error \<open>Invalid refresh token\<close> whenever one
  of the first three colon-delimited segments is missing or empty (a blob of two segments
  among them) and whenever the cipher rejects the decoded nonce, tag and ciphertext under
  the key (a ciphertext segment of odd length among them); what it returns otherwise is
  exactly the text the cipher authenticated, read as UTF-8.
\<close>

theorem decryptToken_fails_closed:
  "(leading_segment_missing blob \<or> opened X blob key = None
      \<longrightarrow> decryptToken X blob key = Inl InvalidRefreshToken)
   \<and> (\<forall>t. decryptToken X blob key = Inr t
      \<longrightarrow> \<not> leading_segment_missing blob
          \<and> (\<exists>pt. opened X blob key = Some pt \<and> t = utf8_decode pt))"
  by (auto simp: decryptToken_def decryptToken_try_def leading_segment_missing_def opened_def
      segment_def Let_def split: option.splits sum.splits if_splits)

theorem decryptToken_fails_closed_witness:
  "leading_segment_missing two_segments
   \<and> decryptToken demo two_segments key0 = Inl InvalidRefreshToken
   \<and> opened demo sealed_tok key1 = None
   \<and> decryptToken demo sealed_tok key1 = Inl InvalidRefreshToken
   \<and> decryptToken demo sealed_tok key0 = Inr (units ''tok'')
   \<and> opened demo sealed_tok key0 = Some ''tok''
   \<and> opened demo with_odd_ciphertext key0 = None
   \<and> decryptToken demo with_odd_ciphertext key0 = Inl InvalidRefreshToken"
proof -
  have o: "opened demo with_odd_ciphertext key0 = None" by code_simp
  have a: "leading_segment_missing two_segments" by code_simp
  have b: "opened demo sealed_tok key1 = None" by code_simp
  have c: "decryptToken demo sealed_tok key0 = Inr (units ''tok'')" by code_simp
  have d: "opened demo sealed_tok key0 = Some ''tok''" by code_simp
  from a b c d o decryptToken_fails_closed [of two_segments demo key0]
    decryptToken_fails_closed [of sealed_tok demo key1]
    decryptToken_fails_closed [of with_odd_ciphertext demo key0]
    decryptToken_fails_closed [of sealed_tok demo key0]
  show ?thesis by blast
qed

section \<open>The session store\<close>

lemma io_tick_frame:
  "io_tick w = (f, w1) \<Longrightarrow>
     redis w1 = redis w \<and> users w1 = users w \<and> ledger w1 = ledger w \<and> calls w1 = calls w
     \<and> entropy w1 = entropy w \<and> clock w \<le> clock w1"
  by (auto simp: io_tick_def split: list.splits)

lemma randomBytes_frame:
  "randomBytes n w = (r, w1) \<Longrightarrow>
     redis w1 = redis w \<and> users w1 = users w \<and> ledger w1 = ledger w \<and> calls w1 = calls w
     \<and> clock w1 = clock w \<and> schedule w1 = schedule w"
  by (auto simp: randomBytes_def split: list.splits)

lemma randomUUID_frame:
  "randomUUID w = (r, w1) \<Longrightarrow>
     redis w1 = redis w \<and> users w1 = users w \<and> ledger w1 = ledger w \<and> calls w1 = calls w
     \<and> clock w1 = clock w \<and> schedule w1 = schedule w"
  by (cases "randomBytes 16 w")
     (auto simp: randomUUID_def bind_def return_def dest: randomBytes_frame split: sum.splits)





lemma bind_InrE:
  assumes "bind m f w = (Inr y, w')"
  obtains x w1 where "m w = (Inr x, w1)" and "f x w1 = (Inr y, w')"
  using bind_Inr [OF assms] by blast

lemma try_wrap_InrE:
  assumes "try_catch m (\<lambda>err. throw (F err)) w = (Inr y, w')"
  obtains "m w = (Inr y, w')"
  using try_catch_wrap_Inr [OF assms] by blast

lemma now_E:
  assumes "now w = (r, w')"
  obtains "r = Inr (clock w)" and "w' = w"
  using assms [unfolded now_def] by blast

lemma return_E:
  assumes "return x w = (r, w')"
  obtains "r = Inr x" and "w' = w"
  using assms [unfolded return_def] by blast

lemma throw_E:
  assumes "throw e w = (r, w')"
  obtains "r = Inl e" and "w' = w"
  using assms [unfolded throw_def] by blast

lemma lift_E:
  assumes "lift v w = (r, w')"
  obtains "r = v" and "w' = w"
  using assms [unfolded lift_def] by blast





section \<open>Runs that the environment serves\<close>

lemma io_tick_redis [simp]:
  "io_tick (w\<lparr>redis := r\<rparr>) = (fst (io_tick w), (snd (io_tick w))\<lparr>redis := r\<rparr>)"
  by (simp add: io_tick_def split: list.splits)

lemma io_tick_entropy [simp]:
  "io_tick (w\<lparr>entropy := x\<rparr>) = (fst (io_tick w), (snd (io_tick w))\<lparr>entropy := x\<rparr>)"
  by (simp add: io_tick_def split: list.splits)

lemma io_tick_keeps [simp]:
  "redis (snd (io_tick w)) = redis w" "entropy (snd (io_tick w)) = entropy w"
  by (simp_all add: io_tick_def split: list.splits)

lemma io_tick_mono: "clock w \<le> clock (snd (io_tick w))"
  by (simp add: io_tick_def split: list.splits)

lemma after_mono: "clock w \<le> clock (after n w)"
proof (induction n arbitrary: w)
  case 0
  show ?case by simp
next
  case (Suc n)
  from io_tick_mono [of w] Suc [of "snd (io_tick w)"] show ?case by simp
qed

lemma after_Suc_right: "after (Suc n) w = snd (io_tick (after n w))"
  by (induction n arbitrary: w) simp_all

lemma after_mono_step: "clock (after n w) \<le> clock (after (Suc n) w)"
  unfolding after_Suc_right by (rule io_tick_mono)

lemma served_Suc_right: "served (Suc n) w \<longleftrightarrow> served n w \<and> \<not> fst (io_tick (after n w))"
  by (induction n arbitrary: w) auto

lemma redis_after [simp]: "redis (after n w) = redis w"
  by (induction n arbitrary: w) simp_all






section \<open>Creating a session\<close>



lemma live_gone: "t \<le> t' \<Longrightarrow> live store t k = None \<Longrightarrow> live store t' k = None"
  by (auto simp: live_def split: option.splits if_splits)

lemma redis_get_Inr:
  assumes "redis_get k w = (Inr v, w1)"
  shows "v = map_option rvalue (live (redis w) (clock w1) k) \<and> redis w1 = redis w
         \<and> clock w \<le> clock w1"
proof -
  obtain f w0 where t: "io_tick w = (f, w0)" by (cases "io_tick w")
  with assms io_tick_frame [OF t] show ?thesis
    by (auto simp: redis_get_def split: if_splits)
qed

lemma redis_pTTL_Inr:
  assumes "redis_pTTL k w = (Inr t, w1)"
  shows "redis w1 = redis w \<and> clock w \<le> clock w1 \<and>
         t = (case live (redis w) (clock w1) k of
                None \<Rightarrow> - 2
              | Some e \<Rightarrow> (case ttl e of None \<Rightarrow> - 1 | Some s \<Rightarrow> stamped e + s * 1000 - clock w1))"
proof -
  obtain f w0 where t: "io_tick w = (f, w0)" by (cases "io_tick w")
  with assms io_tick_frame [OF t] show ?thesis
    by (auto simp: redis_pTTL_def split: if_splits option.splits)
qed

lemma redis_expire_Inr:
  assumes "redis_expire k secs w = (Inr b, w1)"
  shows "clock w \<le> clock w1 \<and>
         redis w1 = (case live (redis w) (clock w1) k of
                       None \<Rightarrow> redis w
                     | Some e \<Rightarrow> if secs \<le> 0 then (redis w)(k := None)
                                else (redis w)(k \<mapsto> e\<lparr>stamped := clock w1, ttl := Some secs\<rparr>))"
proof -
  obtain f w0 where t: "io_tick w = (f, w0)" by (cases "io_tick w")
  with assms io_tick_frame [OF t] show ?thesis
    by (auto simp: redis_expire_def split: if_splits option.splits)
qed






section \<open>Fetching a session\<close>







section \<open>The refresh-token ledger\<close>



lemma user_findUnique_cases:
  assumes "user_findUnique a w = (r, w1)"
  shows "redis w1 = redis w \<and> users w1 = users w \<and> ledger w1 = ledger w \<and> calls w1 = calls w
         \<and> clock w \<le> clock w1
         \<and> (r = Inl DatabaseError \<or> r = Inr (users w a))
         \<and> (schedule w = [] \<longrightarrow> r = Inr (users w a) \<and> w1 = w)"
proof -
  obtain f w0 where t: "io_tick w = (f, w0)" by (cases "io_tick w")
  with assms io_tick_frame [OF t] show ?thesis
    by (auto simp: user_findUnique_def io_tick_def split: if_splits)
qed

lemma getUserIdByAuth0_cases:
  assumes "getUserIdByAuth0 a w = (r, w1)"
  shows "redis w1 = redis w \<and> users w1 = users w \<and> ledger w1 = ledger w \<and> calls w1 = calls w
         \<and> clock w \<le> clock w1
         \<and> (r = Inl DatabaseError \<or> r = Inl UserNotFound \<and> users w a = None
              \<or> (\<exists>u. users w a = Some u \<and> r = Inr (uid u)))
         \<and> (schedule w = [] \<longrightarrow> r \<noteq> Inl DatabaseError \<and> w1 = w)"
proof -
  obtain r0 w0 where u: "user_findUnique a w = (r0, w0)" by (cases "user_findUnique a w")
  from user_findUnique_cases [OF u] u assms show ?thesis
    by (auto simp: getUserIdByAuth0_def bind_def throw_def return_def split: option.splits)
qed

lemma token_findFirst_cases:
  assumes "token_findFirst sid u t w = (r, w1)"
  shows "redis w1 = redis w \<and> users w1 = users w \<and> ledger w1 = ledger w \<and> calls w1 = calls w
         \<and> clock w \<le> clock w1
         \<and> (r = Inl DatabaseError \<or> r = Inr (find (valid_for sid u t) (ledger w)))
         \<and> (schedule w = [] \<longrightarrow> r \<noteq> Inl DatabaseError \<and> w1 = w)"
proof -
  obtain f w0 where t: "io_tick w = (f, w0)" by (cases "io_tick w")
  with assms io_tick_frame [OF t] show ?thesis
    by (auto simp: token_findFirst_def io_tick_def split: if_splits)
qed

lemma fetchRefreshTokenPrisma_cases:
  assumes "fetchRefreshTokenPrisma X E sid a w = (r, w1)"
  shows "redis w1 = redis w \<and> users w1 = users w \<and> ledger w1 = ledger w \<and> calls w1 = calls w
         \<and> clock w \<le> clock w1
         \<and> (\<forall>old. r = Inr old \<longrightarrow>
              (\<exists>u row t. users w a = Some u \<and> clock w \<le> t \<and> t \<le> clock w1
                 \<and> find (valid_for sid (uid u) t) (ledger w) = Some row
                 \<and> decryptToken X (refreshToken row) (ENCRYPTION_KEY E) = Inr old))"
proof -
  obtain r0 w0 where g: "getUserIdByAuth0 a w = (r0, w0)" by (cases "getUserIdByAuth0 a w")
  obtain r2 w2 where f: "token_findFirst sid (projr r0) (clock w0) w0 = (r2, w2)"
    by (cases "token_findFirst sid (projr r0) (clock w0) w0")
  from getUserIdByAuth0_cases [OF g] token_findFirst_cases [OF f] g f assms show ?thesis
    by (auto simp: fetchRefreshTokenPrisma_def try_catch_def bind_def throw_def now_def
        lift_def split: option.splits sum.splits)
qed


lemma axios_cases:
  assumes "axios X req w = (r, w1)"
  shows "redis w1 = redis w \<and> users w1 = users w \<and> ledger w1 = ledger w
         \<and> calls w1 = calls w @ [req] \<and> clock w \<le> clock w1
         \<and> (\<forall>resp. r = Inr resp \<longrightarrow> resp = http X req)"
proof -
  obtain f w0 where t: "io_tick w = (f, w0)" by (cases "io_tick w")
  with assms io_tick_frame [OF t] show ?thesis
    by (auto simp: axios_def Let_def split: if_splits)
qed

lemma redis_set_frame:
  assumes "redis_set k v ex w = (r, w1)"
  shows "users w1 = users w \<and> ledger w1 = ledger w \<and> calls w1 = calls w \<and> clock w \<le> clock w1"
proof -
  obtain f w0 where t: "io_tick w = (f, w0)" by (cases "io_tick w")
  with assms io_tick_frame [OF t] show ?thesis
    by (auto simp: redis_set_def split: if_splits)
qed

lemma saveUserSessionRedis_frame:
  assumes "saveUserSessionRedis X E a tok sid_arg w = (Inr sid, w1)"
  shows "users w1 = users w \<and> ledger w1 = ledger w \<and> calls w1 = calls w \<and> clock w \<le> clock w1"
  using assms unfolding saveUserSessionRedis_def Let_def
  by (auto elim!: bind_InrE now_E try_wrap_InrE return_E throw_E lift_E
      dest!: redis_set_frame randomUUID_frame split: if_splits)

lemma token_updateMany_revoke_Inr:
  assumes "token_updateMany_revoke sid u w = (Inr x, w1)"
  shows "redis w1 = redis w \<and> users w1 = users w \<and> calls w1 = calls w \<and> clock w \<le> clock w1
         \<and> ledger w1 = map (\<lambda>r. if unrevoked_for sid u r then r\<lparr>revoked := True\<rparr> else r) (ledger w)"
proof -
  obtain f w0 where t: "io_tick w = (f, w0)" by (cases "io_tick w")
  with assms io_tick_frame [OF t] show ?thesis
    by (auto simp: token_updateMany_revoke_def split: if_splits)
qed

lemma token_create_Inr:
  assumes "token_create u blob sid ex w = (Inr x, w1)"
  shows "redis w1 = redis w \<and> users w1 = users w \<and> calls w1 = calls w \<and> clock w \<le> clock w1
         \<and> ledger w1 = ledger w @ [\<lparr>rowUserId = u, refreshToken = blob, rowSessionId = sid,
                                     expiresAt = ex, revoked = False\<rparr>]"
proof -
  obtain f w0 where t: "io_tick w = (f, w0)" by (cases "io_tick w")
  with assms io_tick_frame [OF t] show ?thesis
    by (auto simp: token_create_def split: if_splits)
qed

lemma encryptToken_frame:
  assumes "encryptToken X t k n w = (r, w1)"
  shows "redis w1 = redis w \<and> users w1 = users w \<and> ledger w1 = ledger w \<and> calls w1 = calls w
         \<and> clock w1 = clock w"
proof -
  obtain r0 w0 where b: "randomBytes n w = (r0, w0)" by (cases "randomBytes n w")
  from randomBytes_frame [OF b] randomBytes_length [OF b] b assms show ?thesis
    by (auto simp: encryptToken_def bind_def throw_def return_def split: option.splits)
qed

lemma getUserIdByAuth0_Inr:
  assumes "getUserIdByAuth0 a w = (Inr x, w1)"
  shows "redis w1 = redis w \<and> users w1 = users w \<and> ledger w1 = ledger w \<and> calls w1 = calls w
         \<and> clock w \<le> clock w1 \<and> (\<exists>u. users w a = Some u \<and> x = uid u)"
  using getUserIdByAuth0_cases [OF assms] by auto

lemma saveRefreshTokenPrisma_Inr:
  assumes "saveRefreshTokenPrisma X E sid newTok a (Some old) w = (Inr x, w1)" and "old \<noteq> []"
  shows "\<exists>usr t blob wa wb.
           users w a = Some usr \<and> newTok = JStr t
         \<and> encryptToken X (units t) (ENCRYPTION_KEY E) IV_LENGTH wa = (Inr blob, wb)
         \<and> ledger w1 = rotated sid (uid usr) (ledger w)
             \<lparr>rowUserId = uid usr, refreshToken = blob, rowSessionId = sid,
              expiresAt = clock w + AUTH0_REFRESH_TOKEN_EXPIRY E * 1000, revoked = False\<rparr>
         \<and> users w1 = users w \<and> redis w1 = redis w \<and> calls w1 = calls w \<and> clock w \<le> clock w1"
proof -
  from assms(1) obtain t where t: "newTok = JStr t"
    unfolding saveRefreshTokenPrisma_def Let_def try_catch_rethrow
    by (cases newTok) (auto elim!: bind_InrE now_E throw_E)
  from assms show ?thesis
    unfolding saveRefreshTokenPrisma_def Let_def try_catch_rethrow rotated_def t
    apply (elim bind_InrE now_E)
    apply simp
    apply (frule getUserIdByAuth0_Inr)
    apply (frule token_updateMany_revoke_Inr)
    apply (frule encryptToken_frame)
    apply (frule token_create_Inr)
    apply (elim conjE exE)
    apply (intro exI conjI)
            apply (assumption | simp)+
    done
qed

lemma is_hex_fromHex: "is_hex c \<Longrightarrow> c \<noteq> [] \<Longrightarrow> fromHex c \<noteq> []"
proof -
  assume h: "is_hex c" and n: "c \<noteq> []"
  then obtain a b rest where c: "c = a # b # rest"
    by (cases c; cases "tl c") (auto simp: is_hex_def)
  with h show ?thesis by (auto simp: is_hex_def)
qed

lemma written_nonempty:
  assumes "aead_ok X" and "written_blob b" and "decryptToken X b k = Inr old"
  shows "old \<noteq> []"
proof -
  from assms(2) obtain i t c where s: "splitOn (CHR '':'') b = [i, t, c]" and h: "is_hex c"
    by (auto simp: written_blob_def split: list.splits)
  from decryptToken_Inr [OF assms(3)] s obtain pt where c: "c \<noteq> []"
    and o: "unseal X k (fromHex i) (fromHex t) (fromHex c) = Some pt"
    and old: "old = utf8_decode pt"
    by (auto simp: leading_segment_missing_def opened_def segment_def element_def
        split: if_splits)
  from aead_ok_unseal [OF assms(1) o] is_hex_fromHex [OF h c] have "pt \<noteq> []" by auto
  with old show ?thesis by (simp add: utf8_decode_not_Nil)
qed

lemma find_Some_set: "find P xs = Some x \<Longrightarrow> x \<in> set xs \<and> P x"
  by (auto simp: find_Some_iff)

lemma maybeRefresh_True:
  assumes "maybeRefreshAccessToken X E sid sd w = (Inr (True, a), w')"
  shows "refreshTokenService X E (userId sd) sid w = (Inr a, w')"
proof -
  obtain r w1 where s: "refreshTokenService X E (userId sd) sid w = (r, w1)"
    by (cases "refreshTokenService X E (userId sd) sid w")
  with assms show ?thesis
    by (cases r)
       (auto simp: maybeRefreshAccessToken_def try_catch_def bind_def now_def return_def Let_def
         split: if_splits)
qed

lemma verifyAccessToken_Inr: "verifyAccessToken X v w = (Inr b, w1) \<Longrightarrow> w1 = w \<and> (\<exists>t. v = JStr t)"
  by (cases v) (auto simp: verifyAccessToken_def throw_def return_def split: if_splits)

lemma destructure_Inr: "destructure v w = (Inr b, w1) \<Longrightarrow> w1 = w \<and> b = v"
  by (auto simp: destructure_def throw_def return_def split: if_splits)

lemma fetchRefreshTokenPrisma_Inr:
  assumes "fetchRefreshTokenPrisma X E sid a w = (Inr old, w1)"
  shows "redis w1 = redis w \<and> users w1 = users w \<and> ledger w1 = ledger w \<and> calls w1 = calls w
         \<and> clock w \<le> clock w1
         \<and> (\<exists>row. row \<in> set (ledger w)
               \<and> decryptToken X (refreshToken row) (ENCRYPTION_KEY E) = Inr old)"
  using fetchRefreshTokenPrisma_cases [OF assms] by (auto dest: find_Some_set)

lemma refreshTokenService_Inr:
  assumes "refreshTokenService X E a sid w = (Inr tok, w')"
  shows "\<exists>old w3 rt.
           saveRefreshTokenPrisma X E sid rt a (Some old) w3 = (Inr (), w')
         \<and> (\<exists>row. row \<in> set (ledger w)
               \<and> decryptToken X (refreshToken row) (ENCRYPTION_KEY E) = Inr old)
         \<and> calls w3 = calls w @ [RefreshTokenGrant old] \<and> truthy rt
         \<and> member (data (http X (RefreshTokenGrant old))) ''refresh_token'' = rt
         \<and> member (data (http X (RefreshTokenGrant old))) ''access_token'' = JStr tok
         \<and> ledger w3 = ledger w \<and> users w3 = users w \<and> clock w \<le> clock w3"
  using assms unfolding refreshTokenService_def Let_def try_catch_rethrow
  apply (elim bind_InrE)
  apply (simp split: if_splits)
   apply (auto elim!: throw_E)[1]
  apply (elim bind_InrE conjE)
  apply (frule fetchRefreshTokenPrisma_Inr)
  apply (frule axios_cases)
  apply (frule destructure_Inr)
  apply (frule verifyAccessToken_Inr)
  apply (elim conjE exE)
  apply (simp split: jsval.splits)
  apply (auto elim!: throw_E return_E dest!: saveUserSessionRedis_frame)[1]
  apply (intro exI conjI)
          apply (assumption | simp)+
  done

lemma find_filter: "find P xs = (case filter P xs of [] \<Rightarrow> None | x # _ \<Rightarrow> Some x)"
  by (induction xs) auto

lemma rotated_valid:
  assumes "valid_for sid u t new"
  shows "filter (valid_for sid u t) (rotated sid u rows new) = [new]"
proof -
  have "filter (valid_for sid u t)
          (map (\<lambda>r. if unrevoked_for sid u r then r\<lparr>revoked := True\<rparr> else r) rows) = []"
    by (induction rows) (auto simp: valid_for_def unrevoked_for_def)
  with assms show ?thesis by (simp add: rotated_def)
qed

lemma rotated_revokes:
  assumes "i < length rows" and "unrevoked_for sid u (rows ! i)"
  shows "revoked (rotated sid u rows new ! i)"
  using assms by (simp add: rotated_def nth_append)

lemma fetchRefreshTokenPrisma_quiet:
  assumes "schedule w = []" and "users w a = Some u"
    and "find (valid_for sid (uid u) (clock w)) (ledger w) = Some row"
  shows "fetchRefreshTokenPrisma X E sid a w
           = (decryptToken X (refreshToken row) (ENCRYPTION_KEY E), w)"
  using assms
  by (simp add: fetchRefreshTokenPrisma_def try_catch_rethrow bind_def getUserIdByAuth0_def
      user_findUnique_def token_findFirst_def io_tick_def return_def now_def lift_def)


section \<open>Rotation\<close>

lemma try_catch_return_total: "\<exists>r w'. try_catch m (\<lambda>e. return (h e)) w = (Inr r, w')"
  by (cases "m w") (auto simp: try_catch_def return_def split: sum.splits)

lemma toHex_is_hex: "is_hex (toHex bs)"
proof -
  have "\<forall>c\<in>set (toHex_byte b). hex_val c \<noteq> None" for b
    using hex_val_digit [OF of_char_div16, of b] hex_val_digit [of "of_char b mod 16"]
    by (simp add: toHex_byte_def)
  then have "\<forall>c\<in>set (toHex bs). hex_val c \<noteq> None" by (auto simp: toHex_def)
  moreover have "even (length (toHex bs))"
    by (induction bs) (simp_all add: toHex_def toHex_byte_def)
  ultimately show ?thesis by (simp add: is_hex_def)
qed

text \<open>What \<open>encryptToken\<close> returns is a written blob, so a rotation keeps the ledger made
  of written blobs.\<close>

lemma encryptToken_written:
  assumes "encryptToken X token k n w = (Inr blob, w')"
  shows "written_blob blob"
proof -
  from encryptToken_result [OF assms] obtain iv ct tag where
    "blob = toHex iv @ CHR '':'' # toHex tag @ CHR '':'' # toHex ct" by blast
  then show ?thesis by (simp add: written_blob_def splitOn_blob toHex_is_hex)
qed

lemma rotated_written:
  assumes "\<forall>r\<in>set rows. written_blob (refreshToken r)" and "written_blob (refreshToken new)"
  shows "\<forall>r\<in>set (rotated sid u rows new). written_blob (refreshToken r)"
  using assms by (auto simp: rotated_def)

lemma rotation_keeps_written:
  assumes "aead_ok X" and "ledger_written w"
    and "maybeRefreshAccessToken X E sid sd w = (Inr (True, a), w')"
  shows "ledger_written w'"
proof -
  from refreshTokenService_Inr [OF maybeRefresh_True [OF assms(3)]]
  obtain old w3 rt0 row where
    save: "saveRefreshTokenPrisma X E sid rt0 (userId sd) (Some old) w3 = (Inr (), w')"
    and row: "row \<in> set (ledger w)"
      "decryptToken X (refreshToken row) (ENCRYPTION_KEY E) = Inr old"
    and fr3: "ledger w3 = ledger w"
    by blast
  from assms(2) row(1) have "written_blob (refreshToken row)" by (simp add: ledger_written_def)
  from written_nonempty [OF assms(1) this row(2)] have old: "old \<noteq> []" .
  from saveRefreshTokenPrisma_Inr [OF save old]
  obtain usr t blob wa wb where
    usr: "users w3 (userId sd) = Some usr" and t: "rt0 = JStr t"
    and enc: "encryptToken X (units t) (ENCRYPTION_KEY E) IV_LENGTH wa = (Inr blob, wb)"
    and led: "ledger w' = rotated sid (uid usr) (ledger w3)
             \<lparr>rowUserId = uid usr, refreshToken = blob, rowSessionId = sid,
              expiresAt = clock w3 + AUTH0_REFRESH_TOKEN_EXPIRY E * 1000, revoked = False\<rparr>"
    and fr: "users w' = users w3" "calls w' = calls w3"
    by blast
  let ?new = "\<lparr>rowUserId = uid usr, refreshToken = blob, rowSessionId = sid,
              expiresAt = clock w3 + AUTH0_REFRESH_TOKEN_EXPIRY E * 1000, revoked = False\<rparr>"
  from assms(2) fr3 have old_rows: "\<forall>r\<in>set (ledger w3). written_blob (refreshToken r)"
    by (simp add: ledger_written_def)
  from encryptToken_written [OF enc] have "written_blob (refreshToken ?new)" by simp
  from rotated_written [OF old_rows this] led show ?thesis by (simp add: ledger_written_def)
qed

text \<open>
  C2: after a call of \<open>maybeRefreshAccessToken\<close> that rotated (it returned
  \<open>refreshed = true\<close>), the ledger is the old ledger with every record of the pair that
  was not revoked now revoked, followed by one new record; at the time the call ends the
  new record is the only valid record of the pair, it decrypts to the refresh token of
  the provider's reply (to its code units), and \<open>fetchRefreshTokenPrisma\<close> returns that
  token. Assumed: the
  cipher opens what it sealed, the blobs in the ledger are written blobs, and the call
  took less than the refresh-token lifetime.
\<close>

theorem rotation_invariant:
  assumes ok: "aead_ok X" and wr: "ledger_written w"
    and fresh: "clock w' < clock w + AUTH0_REFRESH_TOKEN_EXPIRY E * 1000"
    and run: "maybeRefreshAccessToken X E sid sd w = (Inr (True, a), w')"
  shows "\<exists>usr new old rt.
           users w (userId sd) = Some usr
         \<and> ledger w' = rotated sid (uid usr) (ledger w) new
         \<and> (\<forall>i<length (ledger w).
               unrevoked_for sid (uid usr) (ledger w ! i) \<longrightarrow> revoked (ledger w' ! i))
         \<and> filter (valid_for sid (uid usr) (clock w')) (ledger w') = [new]
         \<and> decryptToken X (refreshToken new) (ENCRYPTION_KEY E) = Inr (units rt)
         \<and> RefreshTokenGrant old \<in> set (calls w')
         \<and> member (data (http X (RefreshTokenGrant old))) ''refresh_token'' = JStr rt
         \<and> fst (fetchRefreshTokenPrisma X E sid (userId sd) (w'\<lparr>schedule := []\<rparr>))
             = Inr (units rt)"
proof -
  from refreshTokenService_Inr [OF maybeRefresh_True [OF run]]
  obtain old w3 rt0 row where
    save: "saveRefreshTokenPrisma X E sid rt0 (userId sd) (Some old) w3 = (Inr (), w')"
    and row: "row \<in> set (ledger w)"
      "decryptToken X (refreshToken row) (ENCRYPTION_KEY E) = Inr old"
    and calls3: "calls w3 = calls w @ [RefreshTokenGrant old]"
    and rt0: "truthy rt0" "member (data (http X (RefreshTokenGrant old))) ''refresh_token'' = rt0"
    and fr3: "ledger w3 = ledger w" "users w3 = users w" "clock w \<le> clock w3"
    by blast
  from wr row(1) have "written_blob (refreshToken row)" by (simp add: ledger_written_def)
  from written_nonempty [OF ok this row(2)] have old: "old \<noteq> []" .
  from saveRefreshTokenPrisma_Inr [OF save old]
  obtain usr t blob wa wb where
    usr: "users w3 (userId sd) = Some usr" and t: "rt0 = JStr t"
    and enc: "encryptToken X (units t) (ENCRYPTION_KEY E) IV_LENGTH wa = (Inr blob, wb)"
    and led: "ledger w' = rotated sid (uid usr) (ledger w3)
             \<lparr>rowUserId = uid usr, refreshToken = blob, rowSessionId = sid,
              expiresAt = clock w3 + AUTH0_REFRESH_TOKEN_EXPIRY E * 1000, revoked = False\<rparr>"
    and fr: "users w' = users w3" "calls w' = calls w3"
    by blast
  let ?new = "\<lparr>rowUserId = uid usr, refreshToken = blob, rowSessionId = sid,
              expiresAt = clock w3 + AUTH0_REFRESH_TOKEN_EXPIRY E * 1000, revoked = False\<rparr>"
  from rt0 t have "units t \<noteq> []" by (simp add: units_def)
  from decrypt_encrypt [OF ok this well_formed_units _ enc]
  have dec: "decryptToken X blob (ENCRYPTION_KEY E) = Inr (units t)" by (simp add: IV_LENGTH_def)
  from fresh fr3 have v: "valid_for sid (uid usr) (clock w') ?new"
    by (simp add: valid_for_def unrevoked_for_def)
  from rotated_valid [OF v] led fr3
  have one: "filter (valid_for sid (uid usr) (clock w')) (ledger w') = [?new]" by simp
  then have "find (valid_for sid (uid usr) (clock w')) (ledger w') = Some ?new"
    by (simp add: find_filter)
  with fetchRefreshTokenPrisma_quiet [of "w'\<lparr>schedule := []\<rparr>" "userId sd" usr sid ?new X E]
    usr fr fr3 dec
  have fetch: "fst (fetchRefreshTokenPrisma X E sid (userId sd) (w'\<lparr>schedule := []\<rparr>))
      = Inr (units t)"
    by simp
  have rev: "\<forall>i<length (ledger w).
               unrevoked_for sid (uid usr) (ledger w ! i) \<longrightarrow> revoked (ledger w' ! i)"
    using led fr3 by (simp add: rotated_revokes)
  from usr fr3 led one dec calls3 fr rt0 t fetch rev show ?thesis
    by (intro exI [of _ usr] exI [of _ ?new] exI [of _ old] exI [of _ t]) simp
qed

theorem rotation_invariant_witness:
  "aead_ok demo \<and> ledger_written busy
   \<and> clock rotated_world < clock busy + AUTH0_REFRESH_TOKEN_EXPIRY env0 * 1000
   \<and> maybeRefreshAccessToken demo env0 ''s1'' session1 busy
       = (Inr (True, ''access-new''), rotated_world)
   \<and> (\<exists>usr new old rt.
           users busy (userId session1) = Some usr
         \<and> ledger rotated_world = rotated ''s1'' (uid usr) (ledger busy) new
         \<and> (\<forall>i<length (ledger busy).
               unrevoked_for ''s1'' (uid usr) (ledger busy ! i)
                 \<longrightarrow> revoked (ledger rotated_world ! i))
         \<and> filter (valid_for ''s1'' (uid usr) (clock rotated_world)) (ledger rotated_world)
             = [new]
         \<and> decryptToken demo (refreshToken new) (ENCRYPTION_KEY env0) = Inr (units rt)
         \<and> RefreshTokenGrant old \<in> set (calls rotated_world)
         \<and> member (data (http demo (RefreshTokenGrant old))) ''refresh_token'' = JStr rt
         \<and> fst (fetchRefreshTokenPrisma demo env0 ''s1'' (userId session1)
                  (rotated_world\<lparr>schedule := []\<rparr>)) = Inr (units rt))
   \<and> fst (fetchRefreshTokenPrisma demo env0 ''s1'' ''u1'' (rotated_world\<lparr>schedule := []\<rparr>))
       = Inr (units ''refresh-new'')
   \<and> map revoked (ledger rotated_world) = [True, False]"
proof -
  have a: "fst (maybeRefreshAccessToken demo env0 ''s1'' session1 busy)
             = Inr (True, ''access-new'')"
    by code_simp
  then have run: "maybeRefreshAccessToken demo env0 ''s1'' session1 busy
       = (Inr (True, ''access-new''), rotated_world)"
    unfolding rotated_world_def by (rule with_snd)
  have wr: "ledger_written busy" by code_simp
  have fresh: "clock rotated_world < clock busy + AUTH0_REFRESH_TOKEN_EXPIRY env0 * 1000"
    by code_simp
  have f: "fst (fetchRefreshTokenPrisma demo env0 ''s1'' ''u1'' (rotated_world\<lparr>schedule := []\<rparr>))
       = Inr (units ''refresh-new'')"
    by code_simp
  have r: "map revoked (ledger rotated_world) = [True, False]" by code_simp
  from rotation_invariant [OF demo_ok wr fresh run] demo_ok wr fresh run f r
  show ?thesis by blast
qed

section \<open>The refresh orchestrator\<close>

text \<open>
  C3: \<open>maybeRefreshAccessToken\<close> always returns a result, and when a refresh is due and
  \<open>refreshTokenService\<close> throws, at whatever step, the result is
  \<open>{refreshed: false, accessToken: session.accessToken}\<close>.
\<close>

theorem maybeRefresh_never_throws:
  "(\<exists>r w'. maybeRefreshAccessToken X E sid sd w = (Inr r, w'))
   \<and> (\<forall>e w1. accessExp sd * 1000 - clock w \<le> REFRESH_TOKEN_WINDOW E
            \<and> refreshTokenService X E (userId sd) sid w = (Inl e, w1)
        \<longrightarrow> maybeRefreshAccessToken X E sid sd w = (Inr (False, accessToken sd), w1))"
proof -
  have "\<exists>r w'. maybeRefreshAccessToken X E sid sd w = (Inr r, w')"
    unfolding maybeRefreshAccessToken_def by (rule try_catch_return_total)
  moreover have "maybeRefreshAccessToken X E sid sd w = (Inr (False, accessToken sd), w1)"
    if "accessExp sd * 1000 - clock w \<le> REFRESH_TOKEN_WINDOW E"
      and "refreshTokenService X E (userId sd) sid w = (Inl e, w1)" for e w1
    using that
    by (simp add: maybeRefreshAccessToken_def try_catch_def bind_def now_def return_def Let_def)
  ultimately show ?thesis by blast
qed

theorem maybeRefresh_never_throws_witness:
  "accessExp session1 * 1000 - clock busy \<le> REFRESH_TOKEN_WINDOW env0
   \<and> fst (refreshTokenService demo env0 ''u1'' ''s1'' no_token) = Inl NoValidRefreshTokenFound
   \<and> fst (maybeRefreshAccessToken demo env0 ''s1'' session1 no_token)
       = Inr (False, ''access-old'')
   \<and> fst (refreshTokenService demo env0 ''u1'' ''s1'' provider_down) = Inl RequestFailed
   \<and> fst (maybeRefreshAccessToken demo env0 ''s1'' session1 provider_down)
       = Inr (False, ''access-old'')
   \<and> fst (refreshTokenService demo_no_refresh_token env0 ''u1'' ''s1'' busy)
       = Inl Auth0DidNotReturnValidTokens
   \<and> fst (maybeRefreshAccessToken demo_no_refresh_token env0 ''s1'' session1 busy)
       = Inr (False, ''access-old'')
   \<and> fst (refreshTokenService demo_unverified env0 ''u1'' ''s1'' busy)
       = Inl JwtVerificationFailed
   \<and> fst (maybeRefreshAccessToken demo_unverified env0 ''s1'' session1 busy)
       = Inr (False, ''access-old'')
   \<and> fst (refreshTokenService demo env0 ''u1'' ''s1'' redis_write_fails)
       = Inl (RedisSaveFailed RedisError)
   \<and> fst (maybeRefreshAccessToken demo env0 ''s1'' session1 redis_write_fails)
       = Inr (False, ''access-old'')"
proof -
  have s: "userId session1 = ''u1''" "accessToken session1 = ''access-old''"
    by (simp_all add: session1_def)
  have due: "accessExp session1 * 1000 - clock busy \<le> REFRESH_TOKEN_WINDOW env0"
    "accessExp session1 * 1000 - clock no_token \<le> REFRESH_TOKEN_WINDOW env0"
    "accessExp session1 * 1000 - clock provider_down \<le> REFRESH_TOKEN_WINDOW env0"
    "accessExp session1 * 1000 - clock redis_write_fails \<le> REFRESH_TOKEN_WINDOW env0"
    by (simp_all add: session1_def busy_def no_token_def provider_down_def
        redis_write_fails_def env0_def)
  have a: "fst (refreshTokenService demo env0 ''u1'' ''s1'' no_token)
             = Inl NoValidRefreshTokenFound"
    by code_simp
  have b: "fst (refreshTokenService demo env0 ''u1'' ''s1'' provider_down) = Inl RequestFailed"
    by code_simp
  have c: "fst (refreshTokenService demo_no_refresh_token env0 ''u1'' ''s1'' busy)
             = Inl Auth0DidNotReturnValidTokens"
    by code_simp
  have d: "fst (refreshTokenService demo_unverified env0 ''u1'' ''s1'' busy)
             = Inl JwtVerificationFailed"
    by code_simp
  have e: "fst (refreshTokenService demo env0 ''u1'' ''s1'' redis_write_fails)
             = Inl (RedisSaveFailed RedisError)"
    by code_simp
  from maybeRefresh_never_throws [of demo env0 "''s1''" session1 no_token]
    with_snd [OF a] due s
  have a': "fst (maybeRefreshAccessToken demo env0 ''s1'' session1 no_token)
              = Inr (False, ''access-old'')"
    by simp
  from maybeRefresh_never_throws [of demo env0 "''s1''" session1 provider_down]
    with_snd [OF b] due s
  have b': "fst (maybeRefreshAccessToken demo env0 ''s1'' session1 provider_down)
              = Inr (False, ''access-old'')"
    by simp
  from maybeRefresh_never_throws [of demo_no_refresh_token env0 "''s1''" session1 busy]
    with_snd [OF c] due s
  have c': "fst (maybeRefreshAccessToken demo_no_refresh_token env0 ''s1'' session1 busy)
              = Inr (False, ''access-old'')"
    by simp
  from maybeRefresh_never_throws [of demo_unverified env0 "''s1''" session1 busy]
    with_snd [OF d] due s
  have d': "fst (maybeRefreshAccessToken demo_unverified env0 ''s1'' session1 busy)
              = Inr (False, ''access-old'')"
    by simp
  from maybeRefresh_never_throws [of demo env0 "''s1''" session1 redis_write_fails]
    with_snd [OF e] due s
  have e': "fst (maybeRefreshAccessToken demo env0 ''s1'' session1 redis_write_fails)
              = Inr (False, ''access-old'')"
    by simp
  from due(1) a a' b b' c c' d d' e e' show ?thesis by simp
qed




section \<open>The validation gate\<close>


lemma getUserSessionRedis_missing:
  assumes "live (redis w) (clock w) (''session:'' @ sid) = None"
  shows "\<exists>e w1. getUserSessionRedis E sid w = (Inl e, w1)"
proof -
  obtain r w1 where g: "redis_get (''session:'' @ sid) w = (r, w1)"
    by (cases "redis_get (''session:'' @ sid) w")
  show ?thesis
  proof (cases r)
    case (Inl e)
    with g show ?thesis
      by (simp add: getUserSessionRedis_def Let_def try_catch_def bind_def throw_def)
  next
    case (Inr v)
    with g redis_get_Inr [of "''session:'' @ sid" w v w1] live_gone [OF _ assms, of "clock w1"]
    have "v = None" by simp
    with g Inr show ?thesis
      by (simp add: getUserSessionRedis_def Let_def try_catch_def bind_def throw_def)
  qed
qed

text \<open>
  C10: the gate's session check always returns a result; whenever the session fetch
  throws, be it a rejected Redis call or the wrapper's error for a missing record, the
  result is the NotFound status without session data, the same as for a session that
  does not exist.
\<close>

theorem getValidSessionOrRevoke_total:
  "(\<exists>r w'. getValidSessionOrRevoke E sid w = (Inr r, w'))
   \<and> (\<forall>e w1. getUserSessionRedis E sid w = (Inl e, w1) \<longrightarrow>
         getValidSessionOrRevoke E sid w
           = (Inr \<lparr>success = False, code = NotFound, gateSession = None\<rparr>, w1))
   \<and> (live (redis w) (clock w) (''session:'' @ sid) = None \<longrightarrow>
         fst (getValidSessionOrRevoke E sid w)
           = Inr \<lparr>success = False, code = NotFound, gateSession = None\<rparr>)"
proof -
  have a: "\<exists>r w'. getValidSessionOrRevoke E sid w = (Inr r, w')"
    unfolding getValidSessionOrRevoke_def by (rule try_catch_return_total)
  have b: "getValidSessionOrRevoke E sid w
             = (Inr \<lparr>success = False, code = NotFound, gateSession = None\<rparr>, w1)"
    if "getUserSessionRedis E sid w = (Inl e, w1)" for e w1
    using that by (simp add: getValidSessionOrRevoke_def try_catch_def bind_def return_def)
  have c: "fst (getValidSessionOrRevoke E sid w)
             = Inr \<lparr>success = False, code = NotFound, gateSession = None\<rparr>"
    if "live (redis w) (clock w) (''session:'' @ sid) = None"
    using getUserSessionRedis_missing [OF that, of E] b by auto
  from a b c show ?thesis by blast
qed

theorem getValidSessionOrRevoke_total_witness:
  "fst (getUserSessionRedis env0 ''s1'' redis_down) = Inl (UnableToRetrieveSession RedisError)
   \<and> fst (getValidSessionOrRevoke env0 ''s1'' redis_down)
       = Inr \<lparr>success = False, code = NotFound, gateSession = None\<rparr>
   \<and> live (redis quiet) (clock quiet) (''session:'' @ ''s1'') = None
   \<and> fst (getValidSessionOrRevoke env0 ''s1'' quiet)
       = Inr \<lparr>success = False, code = NotFound, gateSession = None\<rparr>"
proof -
  have a: "fst (getUserSessionRedis env0 ''s1'' redis_down)
             = Inl (UnableToRetrieveSession RedisError)"
    by code_simp
  have b: "live (redis quiet) (clock quiet) (''session:'' @ ''s1'') = None"
    by (simp add: quiet_def live_def)
  from getValidSessionOrRevoke_total [of env0 "''s1''" redis_down] with_snd [OF a]
  have "fst (getValidSessionOrRevoke env0 ''s1'' redis_down)
          = Inr \<lparr>success = False, code = NotFound, gateSession = None\<rparr>"
    by simp
  moreover from getValidSessionOrRevoke_total [of env0 "''s1''" quiet] b
  have "fst (getValidSessionOrRevoke env0 ''s1'' quiet)
          = Inr \<lparr>success = False, code = NotFound, gateSession = None\<rparr>"
    by blast
  ultimately show ?thesis using a b by simp
qed

section \<open>Logout\<close>

lemma keeps_ledgerD: "keeps_ledger m \<Longrightarrow> m w = (r, w') \<Longrightarrow> ledger w' = ledger w"
  unfolding keeps_ledger_def by blast

lemma keeps_ledger_return: "keeps_ledger (return x)"
  by (simp add: keeps_ledger_def return_def)

lemma keeps_ledger_throw: "keeps_ledger (throw e)"
  by (simp add: keeps_ledger_def throw_def)

lemma keeps_ledger_bind:
  assumes "keeps_ledger m" and "\<And>x. keeps_ledger (f x)"
  shows "keeps_ledger (bind m f)"
  unfolding keeps_ledger_def
proof (intro allI impI)
  fix w r w'
  assume b: "bind m f w = (r, w')"
  obtain r0 w0 where m: "m w = (r0, w0)" by (cases "m w")
  show "ledger w' = ledger w"
  proof (cases r0)
    case (Inl e)
    with b m keeps_ledgerD [OF assms(1) m] show ?thesis by (simp add: bind_def)
  next
    case (Inr x)
    with b m have "f x w0 = (r, w')" by (simp add: bind_def)
    from keeps_ledgerD [OF assms(2) this] keeps_ledgerD [OF assms(1) m] show ?thesis by simp
  qed
qed

lemma keeps_ledger_try_catch:
  assumes "keeps_ledger m" and "\<And>e. keeps_ledger (h e)"
  shows "keeps_ledger (try_catch m h)"
  unfolding keeps_ledger_def
proof (intro allI impI)
  fix w r w'
  assume b: "try_catch m h w = (r, w')"
  obtain r0 w0 where m: "m w = (r0, w0)" by (cases "m w")
  show "ledger w' = ledger w"
  proof (cases r0)
    case (Inl e)
    with b m have "h e w0 = (r, w')" by (simp add: try_catch_def)
    from keeps_ledgerD [OF assms(2) this] keeps_ledgerD [OF assms(1) m] show ?thesis by simp
  next
    case (Inr x)
    with b m keeps_ledgerD [OF assms(1) m] show ?thesis by (simp add: try_catch_def)
  qed
qed

lemma keeps_ledger_tick:
  assumes "\<And>w f w0 r w'. io_tick w = (f, w0) \<Longrightarrow> m w = (r, w') \<Longrightarrow> ledger w' = ledger w0"
  shows "keeps_ledger m"
  unfolding keeps_ledger_def
proof (intro allI impI)
  fix w r w'
  assume m: "m w = (r, w')"
  obtain f w0 where t: "io_tick w = (f, w0)" by (cases "io_tick w")
  from assms [OF t m] io_tick_frame [OF t] show "ledger w' = ledger w" by simp
qed

lemma keeps_ledger_redis_get: "keeps_ledger (redis_get k)"
  by (rule keeps_ledger_tick) (auto simp: redis_get_def split: if_splits)

lemma keeps_ledger_redis_pTTL: "keeps_ledger (redis_pTTL k)"
  by (rule keeps_ledger_tick) (auto simp: redis_pTTL_def split: if_splits option.splits)

lemma keeps_ledger_redis_expire: "keeps_ledger (redis_expire k s)"
  by (rule keeps_ledger_tick) (auto simp: redis_expire_def split: if_splits option.splits)

lemma keeps_ledger_redis_unlink: "keeps_ledger (redis_unlink k)"
  by (rule keeps_ledger_tick) (auto simp: redis_unlink_def split: if_splits option.splits)

lemma keeps_ledger_axios: "keeps_ledger (axios X req)"
  by (rule keeps_ledger_tick) (auto simp: axios_def Let_def split: if_splits)

lemma keeps_ledger_lift: "keeps_ledger (lift v)"
  by (simp add: keeps_ledger_def lift_def)

lemma keeps_ledger_if:
  "keeps_ledger a \<Longrightarrow> keeps_ledger b \<Longrightarrow> keeps_ledger (if c then a else b)"
  by simp

lemma keeps_ledger_case_prod:
  "(\<And>a b. keeps_ledger (f a b)) \<Longrightarrow> keeps_ledger (case p of (a, b) \<Rightarrow> f a b)"
  by (cases p) simp

lemmas keeps_ledger_intros =
  keeps_ledger_if keeps_ledger_case_prod keeps_ledger_bind keeps_ledger_try_catch keeps_ledger_return keeps_ledger_throw
  keeps_ledger_lift keeps_ledger_redis_get keeps_ledger_redis_pTTL keeps_ledger_redis_expire
  keeps_ledger_redis_unlink keeps_ledger_axios

lemma keeps_ledger_getUserSessionRedis: "keeps_ledger (getUserSessionRedis E sid)"
  unfolding getUserSessionRedis_def Let_def
  by (intro keeps_ledger_intros)

lemma keeps_ledger_deleteUserSessionRedis: "keeps_ledger (deleteUserSessionRedis sid)"
  unfolding deleteUserSessionRedis_def Let_def
  by (intro keeps_ledger_intros)

lemma getUserSessionRedis_payload:
  assumes "getUserSessionRedis E sid w = (Inr (sd, act), w1)"
  shows "\<exists>e. redis w (''session:'' @ sid) = Some e \<and> JSON_parse (rvalue e) = Inr sd"
  using assms unfolding getUserSessionRedis_def Let_def
  by (auto elim!: try_wrap_InrE bind_InrE return_E throw_E lift_E
      dest!: redis_get_Inr redis_pTTL_Inr redis_expire_Inr
      simp: live_def
      split: if_splits option.splits)

lemma logoutService_never_revokes:
  assumes "\<forall>e. redis w (''session:'' @ sid) = Some e
             \<longrightarrow> (\<exists>a u x. rvalue e = Encoded (session_payload a u x))"
  shows "ledger (snd (logoutService X E sid w)) = ledger w"
proof -
  let ?rest = "bind (return ()) (\<lambda>_.
        bind (try_catch (bind (deleteUserSessionRedis sid) (\<lambda>_. return ()))
                (\<lambda>err. return ())) (\<lambda>_.
        bind (axios X LogoutRedirect) (\<lambda>_.
        return ())))"
  have rest: "keeps_ledger ?rest"
    by (intro keeps_ledger_intros keeps_ledger_deleteUserSessionRedis)
  obtain r w1 where g: "getUserSessionRedis E sid w = (r, w1)"
    by (cases "getUserSessionRedis E sid w")
  from keeps_ledgerD [OF keeps_ledger_getUserSessionRedis g] have l1: "ledger w1 = ledger w" .
  show ?thesis
  proof (cases r)
    case (Inl e)
    with g l1 show ?thesis
      by (simp add: logoutService_def try_catch_def bind_def throw_def)
  next
    case (Inr p)
    obtain sd act where p: "p = (sd, act)" by (cases p)
    from getUserSessionRedis_payload [OF g [unfolded Inr p]] assms
    obtain a u x where "sd = session_payload a u x" by auto
    then have "member sd ''user_id'' = JUndefined" by (simp add: session_payload_def)
    with g Inr p have "logoutService X E sid w = try_catch ?rest (\<lambda>err. throw err) w1"
      by (simp add: logoutService_def try_catch_def bind_def)
    then have "logoutService X E sid w = ?rest w1" by (simp add: try_catch_rethrow)
    with keeps_ledgerD [OF rest, of w1 "fst (?rest w1)" "snd (?rest w1)"] l1
    show ?thesis by simp
  qed
qed

text \<open>
  C1 (the code departs from it): session \<open>s1\<close> is in the store, as
  \<open>saveUserSessionRedis\<close> wrote it, and the ledger holds a record of the session that is
  not revoked. \<open>logoutService\<close> succeeds, deletes the session, calls the provider's logout
  endpoint, and leaves the record not revoked: the payload has the property \<open>userId\<close>,
  and \<open>logoutService\<close> reads \<open>user_id\<close>.
\<close>

theorem logout_leaves_refresh_token_valid:
  "map_option rvalue (redis busy ''session:s1'')
     = Some (Encoded (session_payload ''access-old'' ''u1'' 830))
   \<and> map (unrevoked_for ''s1'' ''id1'') (ledger busy) = [True]
   \<and> fst (logoutService demo env0 ''s1'' busy) = Inr ()
   \<and> redis (snd (logoutService demo env0 ''s1'' busy)) ''session:s1'' = None
   \<and> calls (snd (logoutService demo env0 ''s1'' busy)) = [LogoutRedirect]
   \<and> map (unrevoked_for ''s1'' ''id1'') (ledger (snd (logoutService demo env0 ''s1'' busy)))
       = [True]"
  by code_simp

section \<open>Plan and role synchronisation\<close>

text \<open>
  C5 (the code departs from it): the plan \<open>plan_gold\<close> has no entry in the mapping. The
  handler does not stop: it writes the plan to the user's row, obtains a machine token,
  reads the user's role, posts the removal of that role and posts the role \<open>undefined\<close>;
  only the provider's refusal of that last request ends the call, with the generic code
  500.
\<close>

theorem updateUserPlan_unmapped_plan_proceeds:
  "find (\<lambda>(_, p). plan_id p = ''plan_gold'') (PLAN_MAPPING demo) = None
   \<and> fst (updateUserPlanService demo env0 (Some ''Bearer machine'') ''u1'' ''plan_gold''
            ''2025-01-01'' busy)
       = Inr \<lparr>ok = False, error_message = ''Internal server error'', response_code = 500\<rparr>
   \<and> calls (snd (updateUserPlanService demo env0 (Some ''Bearer machine'') ''u1'' ''plan_gold''
                   ''2025-01-01'' busy))
       = [ClientCredentialsGrant, GetUserRoles (JStr ''machine'') ''u1'',
          PostUserRoles (JStr ''machine'') ''u1'' (JStr ''role_free''),
          PostUserRoles (JStr ''machine'') ''u1'' JUndefined]
   \<and> map_option planId
        (users (snd (updateUserPlanService demo env0 (Some ''Bearer machine'') ''u1''
                       ''plan_gold'' ''2025-01-01'' busy)) ''u1'')
       = Some ''plan_gold''"
  by code_simp

end
